theory Spec2Isabelle
  imports Main "HOL-Library.Multiset"
begin

section \<open>Python values the module relies on\<close>

text \<open>
  The exceptions of \<^verbatim>\<open>paddlenlp/datasets/dataset.py\<close> that the model keeps apart.
  \<open>AssertionError\<close> comes from the \<^verbatim>\<open>assert\<close> statements, \<open>ValueError\<close> from the
  empty-file check of \<^verbatim>\<open>DatasetBuilder.read\<close>, \<open>NotImplementedError\<close> from the abstract
  hooks; the others are raised by the Python operations the code performs (list
  indexing, dictionary lookup, item assignment on a tuple, \<^verbatim>\<open>%\<close>, \<^verbatim>\<open>//\<close> and \<^verbatim>\<open>/\<close> by
  zero, the conversion of an integer to a float).
\<close>

datatype error =
    AssertionError
  | IndexError
  | KeyError
  | TypeError
  | ValueError
  | ZeroDivisionError
  | OverflowError
  | NotImplementedError

text \<open>Sequencing of fallible steps: the first exception ends the computation.\<close>

definition bind_err :: "error + 'a \<Rightarrow> ('a \<Rightarrow> error + 'b) \<Rightarrow> error + 'b" where
  "bind_err m f = (case m of Inl e \<Rightarrow> Inl e | Inr x \<Rightarrow> f x)"

text \<open>A \<^verbatim>\<open>for\<close> loop (or list comprehension) that builds a list and may raise on an element.\<close>

fun map_err :: "('a \<Rightarrow> error + 'b) \<Rightarrow> 'a list \<Rightarrow> error + 'b list" where
  "map_err f [] = Inr []"
| "map_err f (x # xs) =
     (case f x of
        Inl e \<Rightarrow> Inl e
      | Inr y \<Rightarrow> (case map_err f xs of Inl e \<Rightarrow> Inl e | Inr ys \<Rightarrow> Inr (y # ys)))"

text \<open>
  \<^verbatim>\<open>xs[i]\<close> on a Python list: indices \<open>0 .. n-1\<close> count from the front, \<open>-n .. -1\<close> from
  the back, every other index raises \<open>IndexError\<close>.
\<close>

definition py_getitem :: "'a list \<Rightarrow> int \<Rightarrow> error + 'a" where
  "py_getitem xs i =
     (if 0 \<le> i \<and> i < int (length xs) then Inr (xs ! nat i)
      else if - int (length xs) \<le> i \<and> i < 0 then Inr (xs ! nat (int (length xs) + i))
      else Inl IndexError)"

text \<open>
  \<^verbatim>\<open>xs[start:end]\<close> on a Python list: a negative bound counts from the back, and every
  bound is then clamped into \<open>0 .. n\<close>; the slice is empty when the bounds cross.
\<close>

definition slice_bound :: "nat \<Rightarrow> int \<Rightarrow> nat" where
  "slice_bound n i =
     (if i < 0 then (if i + int n < 0 then 0 else nat (i + int n))
      else if int n < i then n else nat i)"

definition py_slice :: "'a list \<Rightarrow> int \<Rightarrow> int \<Rightarrow> 'a list" where
  "py_slice xs start end =
     take (slice_bound (length xs) end - slice_bound (length xs) start)
          (drop (slice_bound (length xs) start) xs)"

text \<open>
  The true division \<^verbatim>\<open>x / n\<close> of a float by an integer first converts \<^verbatim>\<open>n\<close> to a
  double, rounding to nearest; the conversion raises \<open>OverflowError\<close> when the result
  would lie beyond the largest double \<open>2 ^ 1024 - 2 ^ 971\<close>, that is from the midpoint
  \<open>2 ^ 1024 - 2 ^ 970\<close> on, in either sign.
\<close>

definition float_overflows :: "int \<Rightarrow> bool" where
  "float_overflows n = (\<bar>n\<bar> \<ge> 2 ^ 1024 - 2 ^ 970)"

section \<open>MapDataset\<close>

text \<open>
  The fields of \<^verbatim>\<open>MapDataset.__init__\<close>. The wrapped \<^verbatim>\<open>data\<close> is modelled as a list
  (the object with \<^verbatim>\<open>__getitem__\<close> and \<^verbatim>\<open>__len__\<close> the class expects); samples have
  any type \<open>'a\<close>, the vocabulary information any type \<open>'v\<close>. The functions a caller
  registers are pure total functions on samples.
\<close>

record ('a, 'v) MapDataset =
  data :: "'a list"
  transform_pipline :: "('a \<Rightarrow> 'a) list"
  new_data :: "'a list"
  label_list :: "string list option"
  vocab_info :: "'v option"

definition MapDataset_init ::
  "'a list \<Rightarrow> string list option \<Rightarrow> 'v option \<Rightarrow> ('a, 'v) MapDataset" where
  "MapDataset_init d labels vocab =
     \<lparr>data = d, transform_pipline = [], new_data = d,
      label_list = labels, vocab_info = vocab\<rparr>"

text \<open>\<^verbatim>\<open>_transform\<close>: the loop \<^verbatim>\<open>for fn in self._transform_pipline: data = fn(data)\<close>.\<close>

fun transform_loop :: "('a \<Rightarrow> 'a) list \<Rightarrow> 'a \<Rightarrow> 'a" where
  "transform_loop [] d = d"
| "transform_loop (fn # fns) d = transform_loop fns (fn d)"

definition MapDataset_transform :: "('a, 'v) MapDataset \<Rightarrow> 'a \<Rightarrow> 'a" where
  "MapDataset_transform self d = transform_loop (transform_pipline self) d"

text \<open>
  \<^verbatim>\<open>__getitem__\<close>: the conditional expression tests the pipeline first, then indexes
  \<^verbatim>\<open>new_data\<close> (which may raise) and transforms the sample.
\<close>

definition MapDataset_getitem :: "('a, 'v) MapDataset \<Rightarrow> int \<Rightarrow> error + 'a" where
  "MapDataset_getitem self idx =
     (if transform_pipline self \<noteq> []
      then bind_err (py_getitem (new_data self) idx) (\<lambda>d. Inr (MapDataset_transform self d))
      else py_getitem (new_data self) idx)"

definition MapDataset_len :: "('a, 'v) MapDataset \<Rightarrow> int" where
  "MapDataset_len self = int (length (new_data self))"

text \<open>
  The ambient distributed context that \<^verbatim>\<open>paddle.distributed\<close> answers from:
  \<^verbatim>\<open>dist.get_world_size()\<close> and \<^verbatim>\<open>dist.get_rank()\<close>.
\<close>

record dist_env =
  get_world_size :: int
  get_rank :: int

text \<open>
  \<^verbatim>\<open>_filter\<close>: the comprehension runs over the indices of \<^verbatim>\<open>new_data\<close> and keeps the
  stored sample at an index when \<^verbatim>\<open>fn\<close> accepts it.
\<close>

definition MapDataset__filter ::
  "('a \<Rightarrow> bool) \<Rightarrow> ('a, 'v) MapDataset \<Rightarrow> ('a, 'v) MapDataset" where
  "MapDataset__filter fn self =
     self\<lparr>new_data :=
       [new_data self ! idx. idx \<leftarrow> [0..<length (new_data self)], fn (new_data self ! idx)]\<rparr>"

text \<open>
  \<^verbatim>\<open>shard\<close>. Both branches divide by \<^verbatim>\<open>num_shards\<close> before anything is stored, so
  \<^verbatim>\<open>num_shards = 0\<close> raises \<open>ZeroDivisionError\<close>. The contiguous branch divides integers
  (\<^verbatim>\<open>len(self) // num_shards\<close>). The other branch computes the otherwise unused
  \<^verbatim>\<open>num_samples = int(math.ceil(len(self.new_data) * 1.0 / num_shards))\<close> with floats:
  the division converts \<^verbatim>\<open>num_shards\<close> to a float, which raises \<open>OverflowError\<close> for an
  integer beyond the doubles; the quotient of a length by a non-zero integer is a
  finite float, so \<^verbatim>\<open>math.ceil\<close> and \<^verbatim>\<open>int\<close> raise nothing.
  Python's \<^verbatim>\<open>//\<close> and \<^verbatim>\<open>%\<close> round to minus infinity, as \<open>div\<close> and \<open>mod\<close> on \<open>int\<close> do.
\<close>

definition MapDataset_shard ::
  "dist_env \<Rightarrow> int option \<Rightarrow> int option \<Rightarrow> bool \<Rightarrow> ('a, 'v) MapDataset
     \<Rightarrow> error + ('a, 'v) MapDataset" where
  "MapDataset_shard dist num_shards_arg index_arg contiguous self =
     (let num_shards = (case num_shards_arg of None \<Rightarrow> get_world_size dist | Some n \<Rightarrow> n);
          index = (case index_arg of None \<Rightarrow> get_rank dist | Some i \<Rightarrow> i)
      in if contiguous then
           (if num_shards = 0 then Inl ZeroDivisionError
            else
              let dv = MapDataset_len self div num_shards;
                  md = MapDataset_len self mod num_shards;
                  start = dv * index + min index md;
                  end = start + dv + (if index < md then 1 else 0)
              in Inr (self\<lparr>new_data := py_slice (new_data self) start end\<rparr>))
         else
           (if float_overflows num_shards then Inl OverflowError
            else if num_shards = 0 then Inl ZeroDivisionError
            else
              Inr (self\<lparr>new_data :=
                [new_data self ! idx. idx \<leftarrow> [0..<length (new_data self)],
                   int idx mod num_shards = index]\<rparr>)))"

text \<open>
  The expression \<^verbatim>\<open>div * index + min(index, mod)\<close> that \<^verbatim>\<open>shard\<close> computes for \<^verbatim>\<open>start\<close>,
  as a function of the length, the number of shards and the index; the lemmas on the
  contiguous policy are stated with it.
\<close>

definition shard_start :: "int \<Rightarrow> int \<Rightarrow> int \<Rightarrow> int" where
  "shard_start len num_shards index =
     (len div num_shards) * index + min index (len mod num_shards)"

text \<open>
  The fork-join of \<^verbatim>\<open>filter\<close> and \<^verbatim>\<open>map\<close> with \<^verbatim>\<open>num_workers > 0\<close>: every worker of
  the pool receives its own copy of \<^verbatim>\<open>self\<close>, runs the nested function on it and returns
  the copy; the parent collects the copies in rank order (\<^verbatim>\<open>r.get()\<close> re-raises a worker's
  exception) and concatenates their \<^verbatim>\<open>new_data\<close> into its own.
\<close>

definition filter_shard ::
  "dist_env \<Rightarrow> ('a, 'v) MapDataset \<Rightarrow> int \<Rightarrow> int \<Rightarrow> ('a \<Rightarrow> bool)
     \<Rightarrow> error + ('a, 'v) MapDataset" where
  "filter_shard dist self num_workers index fn =
     bind_err (MapDataset_shard dist (Some num_workers) (Some index) True self)
       (\<lambda>sharded. Inr (MapDataset__filter fn sharded))"

text \<open>\<^verbatim>\<open>self.new_data = []\<close>, then \<^verbatim>\<open>self.new_data += transformed_shards[i].new_data\<close>.\<close>

fun join_shards :: "'a list \<Rightarrow> ('a, 'v) MapDataset list \<Rightarrow> 'a list" where
  "join_shards acc [] = acc"
| "join_shards acc (shard # shards) = join_shards (acc @ new_data shard) shards"

definition MapDataset_filter ::
  "dist_env \<Rightarrow> ('a \<Rightarrow> bool) \<Rightarrow> int \<Rightarrow> ('a, 'v) MapDataset \<Rightarrow> error + ('a, 'v) MapDataset" where
  "MapDataset_filter dist fn num_workers self =
     (if \<not> num_workers \<ge> 0 then Inl AssertionError
      else if num_workers > 0 then
        bind_err
          (map_err (\<lambda>rank. filter_shard dist self num_workers (int rank) fn)
             [0..<nat num_workers])
          (\<lambda>transformed_shards. Inr (self\<lparr>new_data := join_shards [] transformed_shards\<rparr>))
      else Inr (MapDataset__filter fn self))"

text \<open>
  \<^verbatim>\<open>map\<close>. The one Python callable is called on a sample or, with \<^verbatim>\<open>batched=True\<close>, on
  the whole collection; the model gives the two uses two constructors, so the
  \<^verbatim>\<open>batched\<close> flag is the constructor of the argument.
\<close>

datatype 'a map_fn = Sample_fn "'a \<Rightarrow> 'a" | Batched_fn "'a list \<Rightarrow> 'a list"

definition MapDataset__map ::
  "'a map_fn \<Rightarrow> bool \<Rightarrow> ('a, 'v) MapDataset \<Rightarrow> ('a, 'v) MapDataset" where
  "MapDataset__map fn lazy_arg self =
     (case fn of
        Batched_fn g \<Rightarrow> self\<lparr>new_data := g (new_data self)\<rparr>
      | Sample_fn f \<Rightarrow>
          if lazy_arg then self\<lparr>transform_pipline := transform_pipline self @ [f]\<rparr>
          else self\<lparr>new_data :=
                 [f (new_data self ! idx). idx \<leftarrow> [0..<length (new_data self)]]\<rparr>)"

definition map_shard ::
  "dist_env \<Rightarrow> ('a, 'v) MapDataset \<Rightarrow> int \<Rightarrow> int \<Rightarrow> 'a map_fn
     \<Rightarrow> error + ('a, 'v) MapDataset" where
  "map_shard dist self num_workers index fn =
     bind_err (MapDataset_shard dist (Some num_workers) (Some index) True self)
       (\<lambda>sharded. Inr (MapDataset__map fn False sharded))"

definition MapDataset_map ::
  "dist_env \<Rightarrow> 'a map_fn \<Rightarrow> bool \<Rightarrow> int \<Rightarrow> ('a, 'v) MapDataset
     \<Rightarrow> error + ('a, 'v) MapDataset" where
  "MapDataset_map dist fn lazy_arg num_workers self =
     (if \<not> num_workers \<ge> 0 then Inl AssertionError
      else if num_workers > 0 then
        bind_err
          (map_err (\<lambda>rank. map_shard dist self num_workers (int rank) fn)
             [0..<nat num_workers])
          (\<lambda>transformed_shards. Inr (self\<lparr>new_data := join_shards [] transformed_shards\<rparr>))
      else Inr (MapDataset__map fn lazy_arg self))"

section \<open>IterDataset\<close>

text \<open>
  What one pass over a source produces: the records it yields and, when the pass ends
  with an exception instead of exhaustion, that exception. Sources are finite.
\<close>

type_synonym 'a produced = "'a list \<times> error option"

text \<open>
  \<^verbatim>\<open>self.data\<close> is either a function that returns a fresh iterator
  (\<^verbatim>\<open>inspect.isfunction\<close>) or an iterable, a generator included.
\<close>

datatype 'a source = Function "'a produced" | Iterable "'a produced"

text \<open>
  The objects a filter function of the streaming dataset is called on. A Python
  predicate accepts any object; \<^verbatim>\<open>__iter__\<close> hands it the list
  \<^verbatim>\<open>self._filter_pipline\<close>, a list of callables, of which the model keeps the length
  (what \<^verbatim>\<open>len\<close> and truthiness observe), next to the records a caller has in mind.
\<close>

datatype 'a pyobj = Example 'a | Pipline nat

record ('a, 'v) IterDataset =
  iter_data :: "'a source"
  iter_transform_pipline :: "('a \<Rightarrow> 'a) list"
  filter_pipline :: "('a pyobj \<Rightarrow> bool) list"
  shard_filter :: "int \<Rightarrow> error + bool"
  iter_label_list :: "string list option"
  iter_vocab_info :: "'v option"

text \<open>The method \<^verbatim>\<open>_shard_filter\<close> of the class, in place until \<^verbatim>\<open>shard\<close> is called.\<close>

definition default_shard_filter :: "int \<Rightarrow> error + bool" where
  "default_shard_filter num_samples = Inr True"

definition IterDataset_init ::
  "'a source \<Rightarrow> string list option \<Rightarrow> 'v option \<Rightarrow> ('a, 'v) IterDataset" where
  "IterDataset_init d labels vocab =
     \<lparr>iter_data = d, iter_transform_pipline = [], filter_pipline = [],
      shard_filter = default_shard_filter,
      iter_label_list = labels, iter_vocab_info = vocab\<rparr>"

definition IterDataset_transform :: "('a, 'v) IterDataset \<Rightarrow> 'a \<Rightarrow> 'a" where
  "IterDataset_transform self d = transform_loop (iter_transform_pipline self) d"

text \<open>
  \<^verbatim>\<open>_filter(self, data)\<close>: the loop returns \<^verbatim>\<open>False\<close> at the first function that rejects
  \<^verbatim>\<open>data\<close>, \<^verbatim>\<open>True\<close> after the last.
\<close>

fun filter_loop :: "('b \<Rightarrow> bool) list \<Rightarrow> 'b \<Rightarrow> bool" where
  "filter_loop [] d = True"
| "filter_loop (fn # fns) d = (if \<not> fn d then False else filter_loop fns d)"

definition IterDataset__filter :: "('a, 'v) IterDataset \<Rightarrow> 'a pyobj \<Rightarrow> bool" where
  "IterDataset__filter self d = filter_loop (filter_pipline self) d"

text \<open>
  \<^verbatim>\<open>__iter__\<close>. The body of the two \<^verbatim>\<open>for\<close> loops is the same: the argument of
  \<^verbatim>\<open>self._filter\<close> is \<^verbatim>\<open>self._filter_pipline\<close>; \<^verbatim>\<open>and\<close> calls the shard filter only when
  the left operand holds; \<^verbatim>\<open>num_samples += 1\<close> stands outside the \<^verbatim>\<open>if\<close>. An exception of
  the shard filter ends the pass, as does one of the source.
\<close>

fun iter_loop ::
  "('a, 'v) IterDataset \<Rightarrow> 'a list \<Rightarrow> error option \<Rightarrow> int \<Rightarrow> 'a produced" where
  "iter_loop self [] source_end num_samples = ([], source_end)"
| "iter_loop self (example # rest) source_end num_samples =
     (if filter_pipline self = []
         \<or> IterDataset__filter self (Pipline (length (filter_pipline self)))
      then
        (case shard_filter self num_samples of
           Inl e \<Rightarrow> ([], Some e)
         | Inr passes \<Rightarrow>
             if passes then
               (case iter_loop self rest source_end (num_samples + 1) of
                  (later, ending) \<Rightarrow>
                    ((if iter_transform_pipline self \<noteq> []
                      then IterDataset_transform self example else example) # later,
                     ending))
             else iter_loop self rest source_end (num_samples + 1))
      else iter_loop self rest source_end (num_samples + 1))"

definition IterDataset_iter :: "('a, 'v) IterDataset \<Rightarrow> 'a produced" where
  "IterDataset_iter self =
     (case iter_data self of
        Function (examples, source_end) \<Rightarrow> iter_loop self examples source_end 0
      | Iterable (examples, source_end) \<Rightarrow> iter_loop self examples source_end 0)"

definition IterDataset_filter ::
  "('a pyobj \<Rightarrow> bool) \<Rightarrow> ('a, 'v) IterDataset \<Rightarrow> ('a, 'v) IterDataset" where
  "IterDataset_filter fn self = self\<lparr>filter_pipline := filter_pipline self @ [fn]\<rparr>"

text \<open>The nested function \<^verbatim>\<open>sharder\<close>; \<^verbatim>\<open>%\<close> raises when \<^verbatim>\<open>num_shards\<close> is zero.\<close>

definition sharder :: "int \<Rightarrow> int \<Rightarrow> int \<Rightarrow> error + bool" where
  "sharder num_shards index num_samples =
     (if num_shards = 0 then Inl ZeroDivisionError
      else if num_samples mod num_shards = index then Inr True else Inr False)"

definition IterDataset_shard ::
  "dist_env \<Rightarrow> int option \<Rightarrow> int option \<Rightarrow> ('a, 'v) IterDataset \<Rightarrow> ('a, 'v) IterDataset" where
  "IterDataset_shard dist num_shards_arg index_arg self =
     (let num_shards = (case num_shards_arg of None \<Rightarrow> get_world_size dist | Some n \<Rightarrow> n);
          index = (case index_arg of None \<Rightarrow> get_rank dist | Some i \<Rightarrow> i)
      in self\<lparr>shard_filter := sharder num_shards index\<rparr>)"

definition IterDataset_map ::
  "('a \<Rightarrow> 'a) \<Rightarrow> ('a, 'v) IterDataset \<Rightarrow> ('a, 'v) IterDataset" where
  "IterDataset_map fn self =
     self\<lparr>iter_transform_pipline := iter_transform_pipline self @ [fn]\<rparr>"

section \<open>DatasetBuilder\<close>

text \<open>
  The values of a record's fields: \<^verbatim>\<open>None\<close>, strings, integers, lists and tuples. A
  record (an example) is a dictionary from field names to values. Values are not
  shared between records.
\<close>

datatype pyval =
    PNone
  | PStr string
  | PInt int
  | PList "pyval list"
  | PTuple "pyval list"

type_synonym example = "string \<rightharpoonup> pyval"

text \<open>Truth value testing, as \<^verbatim>\<open>and\<close> and \<^verbatim>\<open>if\<close> apply it.\<close>

fun truthy :: "pyval \<Rightarrow> bool" where
  "truthy PNone = False"
| "truthy (PStr s) = (s \<noteq> [])"
| "truthy (PInt i) = (i \<noteq> 0)"
| "truthy (PList vs) = (vs \<noteq> [])"
| "truthy (PTuple vs) = (vs \<noteq> [])"

text \<open>A list cannot be a dictionary key, nor can a tuple that contains one.\<close>

fun hashable :: "pyval \<Rightarrow> bool" where
  "hashable (PList vs) = False"
| "hashable (PTuple vs) = (\<forall>v \<in> set vs. hashable v)"
| "hashable v = True"

text \<open>
  \<^verbatim>\<open>label_dict = {}\<close>, then \<^verbatim>\<open>label_dict[label] = i\<close> for \<^verbatim>\<open>i, label\<close> of
  \<^verbatim>\<open>enumerate(label_list)\<close>: a later occurrence of a label overwrites an earlier one.
\<close>

fun label_dict_loop :: "(string \<rightharpoonup> nat) \<Rightarrow> nat \<Rightarrow> string list \<Rightarrow> (string \<rightharpoonup> nat)" where
  "label_dict_loop d i [] = d"
| "label_dict_loop d i (label # rest) = label_dict_loop (d(label \<mapsto> i)) (Suc i) rest"

definition make_label_dict :: "string list \<Rightarrow> (string \<rightharpoonup> nat)" where
  "make_label_dict labels = label_dict_loop Map.empty 0 labels"

text \<open>
  \<^verbatim>\<open>label_dict[v]\<close>: \<open>TypeError\<close> for an unhashable key, \<open>KeyError\<close> for a key that
  is not in the dictionary (the keys are the strings of the label list).
\<close>

definition label_lookup :: "(string \<rightharpoonup> nat) \<Rightarrow> pyval \<Rightarrow> error + pyval" where
  "label_lookup label_dict v =
     (if \<not> hashable v then Inl TypeError
      else case v of
             PStr s \<Rightarrow> (case label_dict s of None \<Rightarrow> Inl KeyError | Some i \<Rightarrow> Inr (PInt (int i)))
           | _ \<Rightarrow> Inl KeyError)"

text \<open>
  The conversion both branches of \<^verbatim>\<open>read\<close> run on one record: \<^verbatim>\<open>example[label_col]\<close>
  raises \<open>KeyError\<close> when the record lacks the column; a list is rewritten element by
  element; for a tuple the first \<^verbatim>\<open>example[label_col][label_idx] = ...\<close> evaluates its
  right-hand side and then raises \<open>TypeError\<close>, tuples being immutable (an empty tuple
  is left alone, the loop body never runs); any other value is looked up itself.
\<close>

definition convert_label :: "(string \<rightharpoonup> nat) \<Rightarrow> string \<Rightarrow> example \<Rightarrow> error + example" where
  "convert_label label_dict label_col example =
     (case example label_col of
        None \<Rightarrow> Inl KeyError
      | Some (PList vs) \<Rightarrow>
          bind_err (map_err (label_lookup label_dict) vs)
            (\<lambda>ids. Inr (example(label_col \<mapsto> PList ids)))
      | Some (PTuple vs) \<Rightarrow>
          (case vs of
             [] \<Rightarrow> Inr example
           | v # _ \<Rightarrow> bind_err (label_lookup label_dict v) (\<lambda>_. Inl TypeError))
      | Some v \<Rightarrow>
          bind_err (label_lookup label_dict v) (\<lambda>i. Inr (example(label_col \<mapsto> i))))"

text \<open>The name of the label column of a record: \<^verbatim>\<open>labels\<close>, else \<^verbatim>\<open>label\<close>, else \<^verbatim>\<open>None\<close>.\<close>

definition detect_label_col :: "example \<Rightarrow> string option" where
  "detect_label_col example =
     (if example ''labels'' \<noteq> None then Some ''labels''
      else if example ''label'' \<noteq> None then Some ''label''
      else None)"

text \<open>\<^verbatim>\<open>example.get(label_col, None)\<close>; no record has the key \<^verbatim>\<open>None\<close>.\<close>

definition example_get :: "example \<Rightarrow> string option \<Rightarrow> pyval" where
  "example_get example label_col =
     (case label_col of
        None \<Rightarrow> PNone
      | Some c \<Rightarrow> (case example c of None \<Rightarrow> PNone | Some v \<Rightarrow> v))"

text \<open>
  A builder: the class attribute \<^verbatim>\<open>lazy\<close> and the hooks a concrete subclass overrides.
  \<open>hook_read\<close> is \<^verbatim>\<open>_read\<close> (called with the file name and the split; an implementation
  of one argument ignores the split, which is what the \<^verbatim>\<open>co_argcount\<close> test arranges),
  \<open>hook_get_data\<close> is \<^verbatim>\<open>_get_data\<close>. \<^verbatim>\<open>name\<close> and \<^verbatim>\<open>config\<close> are not read by the
  methods below.
\<close>

record 'v DatasetBuilder =
  lazy :: bool
  hook_read :: "string \<Rightarrow> string \<Rightarrow> example produced"
  hook_get_data :: "string \<Rightarrow> error + string"
  get_labels :: "string list option"
  get_vocab :: "'v option"

text \<open>The base class: both hooks raise, there are no labels and no vocabulary.\<close>

definition DatasetBuilder_base :: "bool \<Rightarrow> 'v DatasetBuilder" where
  "DatasetBuilder_base lazy_arg =
     \<lparr>lazy = lazy_arg,
      hook_read = (\<lambda>filename split. ([], Some NotImplementedError)),
      hook_get_data = (\<lambda>mode. Inl NotImplementedError),
      get_labels = None, get_vocab = None\<rparr>"

datatype ('a, 'v) dataset =
    IsMapDataset "('a, 'v) MapDataset"
  | IsIterDataset "('a, 'v) IterDataset"

text \<open>
  The generator \<^verbatim>\<open>generate_examples\<close> of the lazy branch of \<^verbatim>\<open>read\<close>: every record
  has its own label column detected; a failed conversion ends the generator with the
  exception.
\<close>

fun generate_examples ::
  "string list option \<Rightarrow> example list \<Rightarrow> error option \<Rightarrow> example produced" where
  "generate_examples labels [] source_end = ([], source_end)"
| "generate_examples labels (example # rest) source_end =
     (case labels of
        None \<Rightarrow>
          (case generate_examples labels rest source_end of
             (later, ending) \<Rightarrow> (example # later, ending))
      | Some ll \<Rightarrow>
          if truthy (example_get example (detect_label_col example)) then
            (case detect_label_col example of
               None \<Rightarrow>
                 (case generate_examples labels rest source_end of
                    (later, ending) \<Rightarrow> (example # later, ending))
             | Some label_col \<Rightarrow>
                 (case convert_label (make_label_dict ll) label_col example of
                    Inl e \<Rightarrow> ([], Some e)
                  | Inr converted \<Rightarrow>
                      (case generate_examples labels rest source_end of
                         (later, ending) \<Rightarrow> (converted # later, ending))))
          else
            (case generate_examples labels rest source_end of
               (later, ending) \<Rightarrow> (example # later, ending)))"

text \<open>
  \<^verbatim>\<open>read\<close>. Lazy: the generator object is wrapped unrun. Eager: the records are
  materialised (an exception of the source propagates), an empty result raises
  \<open>ValueError\<close>, and the label column and the test whether to convert at all are taken
  from the first record and used for every record.
\<close>

definition DatasetBuilder_read ::
  "'v DatasetBuilder \<Rightarrow> string \<Rightarrow> string \<Rightarrow> error + (example, 'v) dataset" where
  "DatasetBuilder_read self filename split =
     (let labels = get_labels self; vocab = get_vocab self
      in if lazy self then
           (case hook_read self filename split of
              (examples, source_end) \<Rightarrow>
                Inr (IsIterDataset
                  (IterDataset_init (Iterable (generate_examples labels examples source_end))
                     labels vocab)))
         else
           (case hook_read self filename split of
              (examples, Some e) \<Rightarrow> Inl e
            | (examples, None) \<Rightarrow>
                if examples = [] then Inl ValueError
                else
                  (case labels of
                     None \<Rightarrow> Inr (IsMapDataset (MapDataset_init examples labels vocab))
                   | Some ll \<Rightarrow>
                       if truthy (example_get (examples ! 0) (detect_label_col (examples ! 0)))
                       then
                         (case detect_label_col (examples ! 0) of
                            None \<Rightarrow> Inr (IsMapDataset (MapDataset_init examples labels vocab))
                          | Some label_col \<Rightarrow>
                              bind_err
                                (map_err (convert_label (make_label_dict ll) label_col) examples)
                                (\<lambda>converted.
                                   Inr (IsMapDataset (MapDataset_init converted labels vocab))))
                       else Inr (IsMapDataset (MapDataset_init examples labels vocab)))))"

text \<open>
  The arguments of \<^verbatim>\<open>read_datasets\<close>. \<open>None\<close> of the option type is Python's \<^verbatim>\<open>None\<close>
  (or another false value of a foreign type); \<open>DF_other\<close> and \<open>SP_other\<close> stand for
  true values that fail the \<^verbatim>\<open>isinstance\<close> assertions (for \<^verbatim>\<open>splits\<close> also a list or
  tuple whose first element is not a string). A dictionary keeps its insertion
  order, so it is a list of pairs of split name and file name.
\<close>

datatype data_files_arg =
    DF_str string
  | DF_seq "string list"
  | DF_dict "(string \<times> string) list"
  | DF_other

datatype splits_arg =
    SP_str string
  | SP_seq "string list"
  | SP_other

fun data_files_true :: "data_files_arg option \<Rightarrow> bool" where
  "data_files_true None = False"
| "data_files_true (Some (DF_str s)) = (s \<noteq> [])"
| "data_files_true (Some (DF_seq fs)) = (fs \<noteq> [])"
| "data_files_true (Some (DF_dict kvs)) = (kvs \<noteq> [])"
| "data_files_true (Some DF_other) = True"

fun splits_true :: "splits_arg option \<Rightarrow> bool" where
  "splits_true None = False"
| "splits_true (Some (SP_str s)) = (s \<noteq> [])"
| "splits_true (Some (SP_seq ss)) = (ss \<noteq> [])"
| "splits_true (Some SP_other) = True"

text \<open>What \<^verbatim>\<open>read_datasets\<close> returns: \<^verbatim>\<open>datasets[0]\<close> or the list \<^verbatim>\<open>datasets\<close>.\<close>

datatype 'd datasets_result = Single 'd | Several "'d list"

text \<open>The \<^verbatim>\<open>if data_files:\<close> block: the datasets it appends, in order.\<close>

definition read_data_files ::
  "'v DatasetBuilder \<Rightarrow> data_files_arg option \<Rightarrow> error + (example, 'v) dataset list" where
  "read_data_files self data_files =
     (if data_files_true data_files then
        (case data_files of
           Some (DF_str f) \<Rightarrow>
             bind_err (DatasetBuilder_read self f ''train'') (\<lambda>d. Inr [d])
         | Some (DF_seq fs) \<Rightarrow>
             map_err (\<lambda>filename. DatasetBuilder_read self filename ''train'') fs
         | Some (DF_dict kvs) \<Rightarrow>
             map_err (\<lambda>(split, filename). DatasetBuilder_read self filename split) kvs
         | _ \<Rightarrow> Inl AssertionError)
      else Inr [])"

text \<open>The \<^verbatim>\<open>if splits:\<close> block: \<^verbatim>\<open>_get_data\<close>, then \<^verbatim>\<open>read\<close>, split by split.\<close>

definition read_splits ::
  "'v DatasetBuilder \<Rightarrow> splits_arg option \<Rightarrow> error + (example, 'v) dataset list" where
  "read_splits self splits =
     (if splits_true splits then
        (case splits of
           Some (SP_str s) \<Rightarrow>
             bind_err (hook_get_data self s)
               (\<lambda>filename. bind_err (DatasetBuilder_read self filename s) (\<lambda>d. Inr [d]))
         | Some (SP_seq ss) \<Rightarrow>
             map_err (\<lambda>split. bind_err (hook_get_data self split)
                        (\<lambda>filename. DatasetBuilder_read self filename split)) ss
         | _ \<Rightarrow> Inl AssertionError)
      else Inr [])"

definition read_datasets ::
  "'v DatasetBuilder \<Rightarrow> splits_arg option \<Rightarrow> data_files_arg option
     \<Rightarrow> error + (example, 'v) dataset datasets_result" where
  "read_datasets self splits data_files =
     (if \<not> (splits_true splits \<or> data_files_true data_files) then Inl AssertionError
      else
        bind_err (read_data_files self data_files) (\<lambda>from_files.
        bind_err (read_splits self splits) (\<lambda>from_splits.
          let datasets = from_files @ from_splits
          in if length datasets > 1 then Inr (Several datasets)
             else bind_err (py_getitem datasets 0) (\<lambda>d. Inr (Single d)))))"

section \<open>Notions of the specification\<close>

text \<open>
  The definitions of this section are not translations of code: they say in the
  words of the specification what \<^verbatim>\<open>read_datasets\<close> and the label conversion of \<^verbatim>\<open>read\<close>
  are expected to deliver, for the theorems that compare the code with them.
\<close>

text \<open>
  The files that \<^verbatim>\<open>data_files\<close> declares, each with its split, in declaration order: a
  path or a sequence of paths goes with the split \<^verbatim>\<open>train\<close>, a mapping gives the split
  of every path. Nothing is declared by an absent or empty argument.
\<close>

fun declared_files :: "data_files_arg option \<Rightarrow> (string \<times> string) list" where
  "declared_files (Some (DF_str f)) = (if f = [] then [] else [(f, ''train'')])"
| "declared_files (Some (DF_seq fs)) = map (\<lambda>f. (f, ''train'')) fs"
| "declared_files (Some (DF_dict kvs)) = map (\<lambda>(split, f). (f, split)) kvs"
| "declared_files _ = []"

text \<open>The splits that \<^verbatim>\<open>splits\<close> declares, in declaration order.\<close>

fun declared_splits :: "splits_arg option \<Rightarrow> string list" where
  "declared_splits (Some (SP_str s)) = (if s = [] then [] else [s])"
| "declared_splits (Some (SP_seq ss)) = ss"
| "declared_splits _ = []"

text \<open>The value of the label field of a record: of \<^verbatim>\<open>labels\<close>, else of \<^verbatim>\<open>label\<close>.\<close>

definition label_value :: "example \<Rightarrow> pyval" where
  "label_value example = example_get example (detect_label_col example)"

text \<open>
  The label strings of a label value: the string itself, or the elements of a list
  of strings. Other values (numbers, tuples, lists with other elements) have none.
\<close>

fun strings_of :: "pyval list \<Rightarrow> string list option" where
  "strings_of [] = Some []"
| "strings_of (PStr s # vs) = map_option (\<lambda>ss. s # ss) (strings_of vs)"
| "strings_of (v # vs) = None"

fun label_strings :: "pyval \<Rightarrow> string list option" where
  "label_strings (PStr s) = Some [s]"
| "label_strings (PList vs) = strings_of vs"
| "label_strings v = None"

text \<open>\<open>is_index ll v w\<close>: \<open>v\<close> is a label string and \<open>w\<close> a 0-based index of it in \<open>ll\<close>.\<close>

fun is_index :: "string list \<Rightarrow> pyval \<Rightarrow> pyval \<Rightarrow> bool" where
  "is_index ll (PStr s) (PInt i) = (0 \<le> i \<and> i < int (length ll) \<and> ll ! nat i = s)"
| "is_index ll v w = False"

text \<open>A scalar label becomes a scalar index, a list of labels the list of their indices.\<close>

fun indexed :: "string list \<Rightarrow> pyval \<Rightarrow> pyval \<Rightarrow> bool" where
  "indexed ll (PList vs) (PList ws) = list_all2 (is_index ll) vs ws"
| "indexed ll (PList vs) w = False"
| "indexed ll v w = is_index ll v w"

text \<open>
  \<open>relabelled ll example example'\<close>: \<open>example'\<close> is \<open>example\<close> with the non-empty,
  non-null value of its label field replaced by indices; a record whose label field
  is missing, empty or null is unchanged.
\<close>

definition relabelled :: "string list \<Rightarrow> example \<Rightarrow> example \<Rightarrow> bool" where
  "relabelled ll example example' =
     (if truthy (label_value example) then
        (case detect_label_col example of
           None \<Rightarrow> False
         | Some c \<Rightarrow>
             (case example' c of
                None \<Rightarrow> False
              | Some w \<Rightarrow> indexed ll (label_value example) w \<and> example' = example(c \<mapsto> w)))
      else example' = example)"

text \<open>
  A record can be mapped when every label string of its (non-empty, non-null) label
  value is in the label list; it has an absent label when its label value consists of
  label strings and one of them is not in the list.
\<close>

definition mappable :: "string list \<Rightarrow> example \<Rightarrow> bool" where
  "mappable ll example =
     (truthy (label_value example) \<longrightarrow>
        (case label_strings (label_value example) of
           None \<Rightarrow> False
         | Some ss \<Rightarrow> set ss \<subseteq> set ll))"

definition has_absent_label :: "string list \<Rightarrow> example \<Rightarrow> bool" where
  "has_absent_label ll example =
     (truthy (label_value example) \<and>
        (case label_strings (label_value example) of
           None \<Rightarrow> False
         | Some ss \<Rightarrow> \<not> set ss \<subseteq> set ll))"

section \<open>Indexed access\<close>

lemma transform_loop_foldl:
  "transform_loop fns d = foldl (\<lambda>x fn. fn x) d fns"
  by (induction fns arbitrary: d) simp_all

lemma py_getitem_nonneg:
  "0 \<le> i \<Longrightarrow> i < int (length xs) \<Longrightarrow> py_getitem xs i = Inr (xs ! nat i)"
  by (simp add: py_getitem_def)

lemma py_getitem_neg:
  "- int (length xs) \<le> i \<Longrightarrow> i < 0 \<Longrightarrow> py_getitem xs i = Inr (xs ! nat (int (length xs) + i))"
  by (simp add: py_getitem_def)

lemma py_getitem_valid:
  assumes "- int (length xs) \<le> i" and "i < int (length xs)"
  shows "py_getitem xs i = Inr (xs ! nat (i mod int (length xs)))"
proof (cases "0 \<le> i")
  case True
  with assms show ?thesis by (simp add: py_getitem_nonneg)
next
  case False
  then have neg: "i < 0" by simp
  have "(int (length xs) + i) mod int (length xs) = int (length xs) + i"
    using assms neg by (intro mod_pos_pos_trivial) simp_all
  then have "i mod int (length xs) = int (length xs) + i"
    by simp
  with assms neg show ?thesis by (simp add: py_getitem_neg)
qed

lemma lazy_map_fields:
  "transform_pipline (foldl (\<lambda>ds fn. MapDataset__map (Sample_fn fn) True ds) self fns)
     = transform_pipline self @ fns
   \<and> new_data (foldl (\<lambda>ds fn. MapDataset__map (Sample_fn fn) True ds) self fns)
     = new_data self"
  by (induction fns arbitrary: self) (simp_all add: MapDataset__map_def)

lemma getitem_valid:
  assumes "- MapDataset_len self \<le> idx" and "idx < MapDataset_len self"
  shows "MapDataset_getitem self idx
       = Inr (foldl (\<lambda>d fn. fn d)
                (new_data self ! nat (idx mod MapDataset_len self)) (transform_pipline self))"
  using assms
  by (simp add: MapDataset_getitem_def MapDataset_len_def py_getitem_valid bind_err_def
      MapDataset_transform_def transform_loop_foldl)

text \<open>
  Claim C3. At every valid index (\<open>-n \<le> idx < n\<close> for \<open>n\<close> stored records, position
  \<open>idx mod n\<close>), \<^verbatim>\<open>__getitem__\<close> returns the stored record with the registered transforms
  applied one after the other, first registered first; with an empty pipeline it
  returns the stored record itself; and transforms registered by lazy \<^verbatim>\<open>map\<close> calls are
  applied after the ones already registered, in the order of the calls.
\<close>

theorem getitem_folds_transform_pipeline:
  "- MapDataset_len self \<le> idx \<and> idx < MapDataset_len self \<longrightarrow>
     MapDataset_getitem self idx
       = Inr (foldl (\<lambda>d fn. fn d)
                (new_data self ! nat (idx mod MapDataset_len self)) (transform_pipline self))
     \<and> (transform_pipline self = [] \<longrightarrow>
          MapDataset_getitem self idx = Inr (new_data self ! nat (idx mod MapDataset_len self)))
     \<and> MapDataset_getitem
          (foldl (\<lambda>ds fn. MapDataset__map (Sample_fn fn) True ds) self fns) idx
         = Inr (foldl (\<lambda>d fn. fn d)
                (new_data self ! nat (idx mod MapDataset_len self)) (transform_pipline self @ fns))"
proof (intro impI conjI)
  assume valid: "- MapDataset_len self \<le> idx \<and> idx < MapDataset_len self"
  then show first: "MapDataset_getitem self idx
       = Inr (foldl (\<lambda>d fn. fn d)
                (new_data self ! nat (idx mod MapDataset_len self)) (transform_pipline self))"
    by (simp add: getitem_valid)
  show "MapDataset_getitem self idx = Inr (new_data self ! nat (idx mod MapDataset_len self))"
    if "transform_pipline self = []"
    using first that by simp
  let ?self' = "foldl (\<lambda>ds fn. MapDataset__map (Sample_fn fn) True ds) self fns"
  have len: "MapDataset_len ?self' = MapDataset_len self"
    by (simp add: MapDataset_len_def lazy_map_fields)
  show "MapDataset_getitem ?self' idx
         = Inr (foldl (\<lambda>d fn. fn d)
                (new_data self ! nat (idx mod MapDataset_len self)) (transform_pipline self @ fns))"
    using valid getitem_valid [of ?self' idx] len
    by (simp add: lazy_map_fields)
qed

text \<open>
  The theorem at the records \<open>10, 20, 30\<close> with \<open>x + 1\<close> registered: index \<open>1\<close> gives
  \<open>21\<close>, and after registering \<open>x * 2\<close> and then \<open>x - 5\<close> it gives \<open>(20 + 1) * 2 - 5\<close>.
\<close>

theorem getitem_folds_transform_pipeline_witness:
  "MapDataset_getitem
     \<lparr>data = [10, 20, 30], transform_pipline = [\<lambda>x. x + 1], new_data = [10, 20, 30 :: int],
      label_list = None, vocab_info = None :: unit option\<rparr> 1 = Inr 21
   \<and> MapDataset_getitem
       (foldl (\<lambda>ds fn. MapDataset__map (Sample_fn fn) True ds)
         \<lparr>data = [10, 20, 30], transform_pipline = [\<lambda>x. x + 1], new_data = [10, 20, 30 :: int],
          label_list = None, vocab_info = None :: unit option\<rparr> [\<lambda>x. x * 2, \<lambda>x. x - 5]) 1
      = Inr 37"
  using getitem_folds_transform_pipeline
    [of "\<lparr>data = [10, 20, 30], transform_pipline = [\<lambda>x. x + 1], new_data = [10, 20, 30 :: int],
          label_list = None, vocab_info = None :: unit option\<rparr>" 1 "[\<lambda>x. x * 2, \<lambda>x. x - 5]"]
  by (simp add: MapDataset_len_def)

text \<open>
  Claim C9. With \<open>n\<close> stored records, \<^verbatim>\<open>__getitem__\<close> fails exactly when \<open>idx \<ge> n\<close> or
  \<open>idx < -n\<close>, and then with \<open>IndexError\<close>; a negative index from \<open>-n\<close> on is accepted
  and returns the transformed record at position \<open>n + idx\<close>.
\<close>

theorem getitem_index_error_iff:
  "((MapDataset_getitem self idx = Inl IndexError)
      = (idx \<ge> MapDataset_len self \<or> idx < - MapDataset_len self))
   \<and> ((\<exists>e. MapDataset_getitem self idx = Inl e)
      = (idx \<ge> MapDataset_len self \<or> idx < - MapDataset_len self))
   \<and> (- MapDataset_len self \<le> idx \<and> idx < 0 \<longrightarrow>
        MapDataset_getitem self idx
          = Inr (MapDataset_transform self (new_data self ! nat (MapDataset_len self + idx))))"
  by (auto simp: MapDataset_getitem_def MapDataset_len_def py_getitem_def bind_err_def
      MapDataset_transform_def)

text \<open>
  The theorem at three records with \<open>x + 1\<close> registered: index \<open>-1\<close> returns the
  transformed last record, and the indices \<open>3\<close> and \<open>-4\<close> raise.
\<close>

theorem getitem_index_error_iff_witness:
  "MapDataset_getitem
     \<lparr>data = [10, 20, 30], transform_pipline = [\<lambda>x. x + 1], new_data = [10, 20, 30 :: int],
      label_list = None, vocab_info = None :: unit option\<rparr> (- 1) = Inr 31
   \<and> MapDataset_getitem
     \<lparr>data = [10, 20, 30], transform_pipline = [\<lambda>x. x + 1], new_data = [10, 20, 30 :: int],
      label_list = None, vocab_info = None :: unit option\<rparr> 3 = Inl IndexError
   \<and> MapDataset_getitem
     \<lparr>data = [10, 20, 30], transform_pipline = [\<lambda>x. x + 1], new_data = [10, 20, 30 :: int],
      label_list = None, vocab_info = None :: unit option\<rparr> (- 4) = Inl IndexError"
  using getitem_index_error_iff
    [of "\<lparr>data = [10, 20, 30], transform_pipline = [\<lambda>x. x + 1], new_data = [10, 20, 30 :: int],
          label_list = None, vocab_info = None :: unit option\<rparr>" "- 1"]
    getitem_index_error_iff
    [of "\<lparr>data = [10, 20, 30], transform_pipline = [\<lambda>x. x + 1], new_data = [10, 20, 30 :: int],
          label_list = None, vocab_info = None :: unit option\<rparr>" 3]
    getitem_index_error_iff
    [of "\<lparr>data = [10, 20, 30], transform_pipline = [\<lambda>x. x + 1], new_data = [10, 20, 30 :: int],
          label_list = None, vocab_info = None :: unit option\<rparr>" "- 4"]
  by (simp add: MapDataset_len_def MapDataset_transform_def)

section \<open>Sharding and filtering a MapDataset\<close>

lemma comprehension_map_filter:
  "concat (map (\<lambda>i. if Q i then [f i] else []) ys) = map f (filter Q ys)"
  by (induction ys) simp_all

lemma index_comprehension_filter:
  "concat (map (\<lambda>idx. if fn (xs ! idx) then [xs ! idx] else []) [0..<length xs]) = filter fn xs"
proof -
  have "concat (map (\<lambda>idx. if fn (xs ! idx) then [xs ! idx] else []) [0..<length xs])
          = map (\<lambda>idx. xs ! idx) (filter (\<lambda>idx. fn (xs ! idx)) [0..<length xs])"
    by (rule comprehension_map_filter)
  also have "\<dots> = filter fn (map (\<lambda>idx. xs ! idx) [0..<length xs])"
    by (simp add: filter_map comp_def)
  also have "\<dots> = filter fn xs"
    by (simp add: map_nth)
  finally show ?thesis .
qed

lemma MapDataset__filter_eq:
  "MapDataset__filter fn self = self\<lparr>new_data := filter fn (new_data self)\<rparr>"
  by (simp add: MapDataset__filter_def index_comprehension_filter)

lemma map_err_all_Inr:
  "(\<And>x. x \<in> set xs \<Longrightarrow> f x = Inr (g x)) \<Longrightarrow> map_err f xs = Inr (map g xs)"
  by (induction xs) simp_all

lemma join_shards_concat:
  "join_shards acc shards = acc @ concat (map new_data shards)"
  by (induction shards arbitrary: acc) simp_all

lemma slice_bound_inside:
  "0 \<le> i \<Longrightarrow> i \<le> int n \<Longrightarrow> slice_bound n i = nat i"
  by (simp add: slice_bound_def)

lemma py_slice_inside:
  assumes "0 \<le> s" and "s \<le> e" and "e \<le> int (length xs)"
  shows "py_slice xs s e = take (nat e - nat s) (drop (nat s) xs)"
  using assms by (simp add: py_slice_def slice_bound_inside)

lemma take_drop_nths:
  assumes "a \<le> b" and "b \<le> length xs"
  shows "take (b - a) (drop a xs) = map (\<lambda>p. xs ! p) [a..<b]"
proof (rule nth_equalityI)
  show "length (take (b - a) (drop a xs)) = length (map (\<lambda>p. xs ! p) [a..<b])"
    using assms by simp
next
  fix i
  assume "i < length (take (b - a) (drop a xs))"
  then have "i < b - a" by simp
  then show "take (b - a) (drop a xs) ! i = map (\<lambda>p. xs ! p) [a..<b] ! i"
    using assms by simp
qed

lemma shard_start_step:
  "shard_start len n index + len div n + (if index < len mod n then 1 else 0)
     = shard_start len n (index + 1)"
  by (simp add: shard_start_def algebra_simps min_def)

lemma shard_start_0: "shard_start len n 0 = 0" if "0 < n" "0 \<le> len"
proof -
  have "0 \<le> len mod n" using that by simp
  then show ?thesis by (simp add: shard_start_def)
qed

lemma shard_start_last: "shard_start len n n = len" if "0 < n"
proof -
  have "len mod n < n" using that by simp
  then have "min n (len mod n) = len mod n" by simp
  then show ?thesis by (simp add: shard_start_def)
qed

lemma shard_start_mono:
  assumes "0 < n" and "0 \<le> len"
  shows "shard_start len n index \<le> shard_start len n (index + 1)"
proof -
  have "0 \<le> len div n" using assms by (simp add: pos_imp_zdiv_nonneg_iff)
  then show ?thesis
    unfolding shard_start_step [symmetric] by simp
qed

lemma shard_start_nonneg:
  assumes "0 < n" and "0 \<le> len"
  shows "0 \<le> shard_start len n (int k)"
proof (induction k)
  case 0
  then show ?case using assms by (simp add: shard_start_0)
next
  case (Suc k)
  have "shard_start len n (int k) \<le> shard_start len n (int k + 1)"
    using assms by (rule shard_start_mono)
  with Suc show ?case by (simp add: add.commute)
qed

lemma shard_start_bounded:
  assumes "0 < n" and "0 \<le> len" and "int k \<le> n"
  shows "shard_start len n (int k) \<le> len"
proof -
  have mono: "shard_start len n (int k) \<le> shard_start len n (int k + int j)" for j
  proof (induction j)
    case 0
    then show ?case by simp
  next
    case (Suc j)
    have "shard_start len n (int k + int j) \<le> shard_start len n (int k + int j + 1)"
      using assms(1,2) by (rule shard_start_mono)
    with Suc show ?case by (simp add: algebra_simps)
  qed
  have "int k + int (nat (n - int k)) = n" using assms by simp
  with mono [of "nat (n - int k)"] shard_start_last [OF assms(1), of len]
  show ?thesis by simp
qed


lemma shard_contiguous_eq:
  assumes "0 < n" and "0 \<le> index" and "index < n"
  shows "MapDataset_shard dist (Some n) (Some index) True self
           = Inr (self\<lparr>new_data :=
               map (\<lambda>p. new_data self ! p)
                 [nat (shard_start (MapDataset_len self) n index)
                    ..<nat (shard_start (MapDataset_len self) n (index + 1))]\<rparr>)"
proof -
  let ?L = "MapDataset_len self"
  let ?s = "shard_start ?L n index" and ?e = "shard_start ?L n (index + 1)"
  have L: "0 \<le> ?L" by (simp add: MapDataset_len_def)
  obtain k where k: "index = int k" using assms(2) nonneg_int_cases by blast
  have s0: "0 \<le> ?s" unfolding k using assms(1) L by (rule shard_start_nonneg)
  have se: "?s \<le> ?e" using assms(1) L by (rule shard_start_mono)
  have "int (Suc k) \<le> n" using assms(3) k by simp
  then have "shard_start ?L n (int (Suc k)) \<le> ?L"
    using assms(1) L shard_start_bounded by blast
  then have eL: "?e \<le> int (length (new_data self))"
    by (simp add: k MapDataset_len_def add.commute)
  have "py_slice (new_data self) ?s ?e = take (nat ?e - nat ?s) (drop (nat ?s) (new_data self))"
    using s0 se eL by (rule py_slice_inside)
  also have "\<dots> = map (\<lambda>p. new_data self ! p) [nat ?s..<nat ?e]"
    using s0 se eL by (intro take_drop_nths) simp_all
  finally have slice: "py_slice (new_data self) ?s ?e
      = map (\<lambda>p. new_data self ! p) [nat ?s..<nat ?e]" .
  have "MapDataset_shard dist (Some n) (Some index) True self
      = Inr (self\<lparr>new_data := py_slice (new_data self) ?s ?e\<rparr>)"
    using assms(1)
    by (simp add: MapDataset_shard_def Let_def shard_start_step [symmetric])
       (simp add: shard_start_def)
  with slice show ?thesis by simp
qed

lemma concat_consecutive_ranges:
  assumes "\<And>i. i < k \<Longrightarrow> f i \<le> f (Suc i)"
  shows "concat (map (\<lambda>i. map g [f i..<f (Suc i)]) [0..<k]) = map g [f 0..<f k]"
  using assms
proof (induction k)
  case 0
  then show ?case by simp
next
  case (Suc k)
  have mono: "f 0 \<le> f k"
    using Suc.prems by (induction k) (simp_all add: le_trans less_Suc_eq)
  have "[f 0..<f (Suc k)] = [f 0..<f k] @ [f k..<f (Suc k)]"
    using mono Suc.prems [of k] by (metis le_Suc_ex lessI upt_add_eq_append)
  with Suc show ?case by simp
qed

lemma contiguous_shards_concat:
  assumes "0 < n"
  shows "concat (map (\<lambda>i. map (\<lambda>p. new_data self ! p)
                 [nat (shard_start (MapDataset_len self) n (int i))
                    ..<nat (shard_start (MapDataset_len self) n (int (Suc i)))]) [0..<nat n])
           = new_data self"
proof -
  let ?L = "MapDataset_len self"
  let ?f = "\<lambda>i. nat (shard_start ?L n (int i))"
  have L: "0 \<le> ?L" by (simp add: MapDataset_len_def)
  have step: "?f i \<le> ?f (Suc i)" for i
    using shard_start_mono [OF assms L, of "int i"] by (simp add: add.commute)
  have "concat (map (\<lambda>i. map (\<lambda>p. new_data self ! p) [?f i..<?f (Suc i)]) [0..<nat n])
          = map (\<lambda>p. new_data self ! p) [?f 0..<?f (nat n)]"
    by (rule concat_consecutive_ranges) (rule step)
  also have "?f 0 = 0" using assms L by (simp add: shard_start_0)
  also have "?f (nat n) = length (new_data self)"
    using assms shard_start_last [OF assms, of ?L] by (simp add: MapDataset_len_def)
  finally show ?thesis by (simp add: map_nth)
qed

lemma shard_striped_eq:
  assumes "n \<noteq> 0" and "\<not> float_overflows n"
  shows "MapDataset_shard dist (Some n) (Some index) False self
           = Inr (self\<lparr>new_data :=
               map (\<lambda>p. new_data self ! p)
                 (filter (\<lambda>p. int p mod n = index) [0..<length (new_data self)])\<rparr>)"
  using assms by (simp add: MapDataset_shard_def comprehension_map_filter)

lemma striped_classes_mset:
  assumes "0 < n"
  shows "(\<Sum>i\<leftarrow>[0..<nat n]. mset (map g (filter (\<lambda>p. int p mod n = int i) ys)))
           = mset (map g ys)"
proof (induction ys)
  case Nil
  then show ?case by simp
next
  case (Cons p ys)
  let ?r = "nat (int p mod n)"
  have r: "?r < nat n" using assms by simp
  have eq: "(int p mod n = int i) = (i = ?r)" for i
    using assms by auto
  have "(\<Sum>i\<leftarrow>[0..<nat n]. mset (map g (filter (\<lambda>q. int q mod n = int i) (p # ys))))
      = (\<Sum>i\<leftarrow>[0..<nat n]. (if i = ?r then {#g p#} else {#})
            + mset (map g (filter (\<lambda>q. int q mod n = int i) ys)))"
    by (intro arg_cong [where f = sum_list] map_cong refl) (simp add: eq)
  also have "\<dots> = (\<Sum>i\<leftarrow>[0..<nat n]. if i = ?r then {#g p#} else {#})
        + (\<Sum>i\<leftarrow>[0..<nat n]. mset (map g (filter (\<lambda>q. int q mod n = int i) ys)))"
    by (simp add: sum_list_addf)
  also have "(\<Sum>i\<leftarrow>[0..<nat n]. if i = ?r then {#g p#} else {#}) = {#g p#}"
    using r by (simp add: sum_list_distinct_conv_sum_set)
  finally show ?case using Cons by simp
qed

text \<open>
  Sharding is a partition wherever \<^verbatim>\<open>shard\<close> returns. For a positive number of shards,
  the contiguous policy gives shard \<open>index\<close> (from \<open>0\<close> to \<open>num_shards - 1\<close>) the records
  at the positions from \<open>start = div * index + min index mod\<close> up to, not including,
  \<open>end = start + div + (1 if index < mod else 0)\<close>, a range inside the stored list, and
  the shards \<open>0, \<dots>, num_shards - 1\<close> concatenated in this order are the stored list.
  When the number of shards moreover converts to a float, the striped policy gives
  shard \<open>index\<close> the records at the positions \<open>p\<close> with \<open>p mod num_shards = index\<close> in
  increasing order of \<open>p\<close>, and the shards together hold every stored record exactly
  as often as the stored list does.
\<close>

lemma shard_partition_in_float_range:
  "0 < num_shards \<Longrightarrow>
     (\<forall>index. 0 \<le> index \<and> index < num_shards \<longrightarrow>
        (let dv = MapDataset_len self div num_shards;
             md = MapDataset_len self mod num_shards;
             start = dv * index + min index md;
             end = start + dv + (if index < md then 1 else 0)
         in 0 \<le> start \<and> start \<le> end \<and> end \<le> MapDataset_len self
            \<and> MapDataset_shard dist (Some num_shards) (Some index) True self
                = Inr (self\<lparr>new_data :=
                    map (\<lambda>p. new_data self ! p) [nat start..<nat end]\<rparr>)))
     \<and> (\<exists>shards.
          map_err (\<lambda>i. MapDataset_shard dist (Some num_shards) (Some (int i)) True self)
            [0..<nat num_shards] = Inr shards
          \<and> concat (map new_data shards) = new_data self)
     \<and> (\<not> float_overflows num_shards \<longrightarrow>
          (\<forall>index.
             MapDataset_shard dist (Some num_shards) (Some index) False self
               = Inr (self\<lparr>new_data :=
                   map (\<lambda>p. new_data self ! p)
                     (filter (\<lambda>p. int p mod num_shards = index)
                        [0..<length (new_data self)])\<rparr>))
          \<and> (\<exists>shards.
               map_err (\<lambda>i. MapDataset_shard dist (Some num_shards) (Some (int i)) False self)
                 [0..<nat num_shards] = Inr shards
               \<and> (\<Sum>shard\<leftarrow>shards. mset (new_data shard)) = mset (new_data self)))"
proof (intro conjI allI impI)
  fix index
  assume n: "0 < num_shards" and "0 \<le> index \<and> index < num_shards"
  then have i0: "0 \<le> index" and i1: "index < num_shards" by simp_all
  let ?L = "MapDataset_len self"
  have L: "0 \<le> ?L" by (simp add: MapDataset_len_def)
  obtain k where k: "index = int k" using i0 nonneg_int_cases by blast
  have s0: "0 \<le> shard_start ?L num_shards index"
    unfolding k using n L by (rule shard_start_nonneg)
  have se: "shard_start ?L num_shards index \<le> shard_start ?L num_shards (index + 1)"
    using n L by (rule shard_start_mono)
  have "int (Suc k) \<le> num_shards" using i1 k by simp
  then have "shard_start ?L num_shards (int (Suc k)) \<le> ?L"
    using n L shard_start_bounded by blast
  then have eL: "shard_start ?L num_shards (index + 1) \<le> ?L"
    by (simp add: k add.commute)
  have unfold_start: "?L div num_shards * index + min index (?L mod num_shards)
      = shard_start ?L num_shards index"
    by (simp add: shard_start_def)
  show "let dv = ?L div num_shards; md = ?L mod num_shards;
            start = dv * index + min index md;
            end = start + dv + (if index < md then 1 else 0)
        in 0 \<le> start \<and> start \<le> end \<and> end \<le> ?L
           \<and> MapDataset_shard dist (Some num_shards) (Some index) True self
               = Inr (self\<lparr>new_data := map (\<lambda>p. new_data self ! p) [nat start..<nat end]\<rparr>)"
    unfolding Let_def unfold_start shard_start_step
    using s0 se eL shard_contiguous_eq [OF n i0 i1, of dist self] by simp
next
  assume n: "0 < num_shards"
  let ?piece = "\<lambda>i. self\<lparr>new_data := map (\<lambda>p. new_data self ! p)
      [nat (shard_start (MapDataset_len self) num_shards (int i))
         ..<nat (shard_start (MapDataset_len self) num_shards (int (Suc i)))]\<rparr>"
  have "map_err (\<lambda>i. MapDataset_shard dist (Some num_shards) (Some (int i)) True self)
          [0..<nat num_shards] = Inr (map ?piece [0..<nat num_shards])"
  proof (rule map_err_all_Inr)
    fix i assume "i \<in> set [0..<nat num_shards]"
    then have "int i < num_shards" by simp
    then show "MapDataset_shard dist (Some num_shards) (Some (int i)) True self = Inr (?piece i)"
      using shard_contiguous_eq [OF n, of "int i" dist self] by (simp add: add.commute)
  qed
  moreover have "concat (map new_data (map ?piece [0..<nat num_shards])) = new_data self"
    using contiguous_shards_concat [OF n, of self] by (simp add: comp_def)
  ultimately show "\<exists>shards.
      map_err (\<lambda>i. MapDataset_shard dist (Some num_shards) (Some (int i)) True self)
        [0..<nat num_shards] = Inr shards
      \<and> concat (map new_data shards) = new_data self"
    by blast
next
  fix index
  assume n: "0 < num_shards" and "\<not> float_overflows num_shards"
  then show "MapDataset_shard dist (Some num_shards) (Some index) False self
      = Inr (self\<lparr>new_data := map (\<lambda>p. new_data self ! p)
              (filter (\<lambda>p. int p mod num_shards = index) [0..<length (new_data self)])\<rparr>)"
    by (simp add: shard_striped_eq)
next
  assume n: "0 < num_shards" and float: "\<not> float_overflows num_shards"
  let ?piece = "\<lambda>i. self\<lparr>new_data := map (\<lambda>p. new_data self ! p)
      (filter (\<lambda>p. int p mod num_shards = int i) [0..<length (new_data self)])\<rparr>"
  have "map_err (\<lambda>i. MapDataset_shard dist (Some num_shards) (Some (int i)) False self)
          [0..<nat num_shards] = Inr (map ?piece [0..<nat num_shards])"
    using n float by (intro map_err_all_Inr) (simp add: shard_striped_eq)
  moreover have "(\<Sum>shard\<leftarrow>map ?piece [0..<nat num_shards]. mset (new_data shard))
      = mset (new_data self)"
    using striped_classes_mset [OF n, of "\<lambda>p. new_data self ! p" "[0..<length (new_data self)]"]
    by (simp add: comp_def map_nth)
  ultimately show "\<exists>shards.
      map_err (\<lambda>i. MapDataset_shard dist (Some num_shards) (Some (int i)) False self)
        [0..<nat num_shards] = Inr shards
      \<and> (\<Sum>shard\<leftarrow>shards. mset (new_data shard)) = mset (new_data self)"
    by blast
qed

text \<open>
  Five records and two shards: the contiguous shards are the first three and the last
  two records, the striped shard \<open>1\<close> holds the second and the fourth.
\<close>

lemma shard_five_records:
  "MapDataset_shard \<lparr>get_world_size = 1, get_rank = 0\<rparr> (Some 2) (Some 0) True
     (MapDataset_init [10, 20, 30, 40, 50 :: int] None (None :: unit option))
     = Inr ((MapDataset_init [10, 20, 30, 40, 50] None None)\<lparr>new_data := [10, 20, 30]\<rparr>)
   \<and> MapDataset_shard \<lparr>get_world_size = 1, get_rank = 0\<rparr> (Some 2) (Some 1) True
     (MapDataset_init [10, 20, 30, 40, 50 :: int] None (None :: unit option))
     = Inr ((MapDataset_init [10, 20, 30, 40, 50] None None)\<lparr>new_data := [40, 50]\<rparr>)
   \<and> MapDataset_shard \<lparr>get_world_size = 1, get_rank = 0\<rparr> (Some 2) (Some 1) False
     (MapDataset_init [10, 20, 30, 40, 50 :: int] None (None :: unit option))
     = Inr ((MapDataset_init [10, 20, 30, 40, 50] None None)\<lparr>new_data := [20, 40]\<rparr>)"
proof -
  have pos: "0 < (2::int)" by simp
  have small: "\<not> float_overflows 2" by (simp add: float_overflows_def)
  note part = shard_partition_in_float_range [OF pos,
      of "MapDataset_init [10, 20, 30, 40, 50 :: int] None (None :: unit option)"
         "\<lparr>get_world_size = 1, get_rank = 0\<rparr>"]
  note contiguous = part [THEN conjunct1, rule_format]
  note striped = part [THEN conjunct2, THEN conjunct2, rule_format, OF small,
      THEN conjunct1, rule_format]
  have len: "MapDataset_len (MapDataset_init [10, 20, 30, 40, 50 :: int] None (None :: unit option)) = 5"
    by (simp add: MapDataset_len_def MapDataset_init_def)
  have nd: "new_data (MapDataset_init [10, 20, 30, 40, 50 :: int] None (None :: unit option))
      = [10, 20, 30, 40, 50]"
    by (simp add: MapDataset_init_def)
  have "[nat 0..<nat 3] = [0, 1, 2]" and "[nat 3..<nat 5] = [3, 4]"
    by (simp_all add: upt_rec)
  then show ?thesis
    using contiguous [of 0] contiguous [of 1] striped [of 1]
    by (simp add: len nd Let_def upt_rec)
qed

text \<open>
  Claim C2 holds of the contiguous policy and fails on the code of the striped one.
  Before it selects the records, the striped branch of \<^verbatim>\<open>shard\<close> computes the unused
  \<^verbatim>\<open>num_samples\<close> with a float division by \<^verbatim>\<open>num_shards\<close>. With the records \<open>10, 20\<close> and
  \<^verbatim>\<open>shard(num_shards=2**1024, index=1)\<close> the claim gives the shard the record at position
  \<open>1\<close>, the one position \<open>p\<close> with \<open>p mod num_shards = 1\<close>, and the contiguous policy
  returns a shard for this number of shards; the striped call raises
  \<open>OverflowError\<close>.
\<close>

theorem shard_striped_overflow:
  "MapDataset_shard \<lparr>get_world_size = 1, get_rank = 0\<rparr> (Some (2 ^ 1024)) (Some 1) False
     (MapDataset_init [10, 20 :: int] None (None :: unit option))
     = Inl OverflowError
   \<and> filter (\<lambda>p. int p mod 2 ^ 1024 = 1) [0..<length [10, 20 :: int]] = [1]
   \<and> MapDataset_shard \<lparr>get_world_size = 1, get_rank = 0\<rparr> (Some (2 ^ 1024)) (Some 1) True
     (MapDataset_init [10, 20 :: int] None (None :: unit option))
     = Inr ((MapDataset_init [10, 20] None None)\<lparr>new_data := [20]\<rparr>)"
proof (intro conjI)
  show "MapDataset_shard \<lparr>get_world_size = 1, get_rank = 0\<rparr> (Some (2 ^ 1024)) (Some 1) False
     (MapDataset_init [10, 20 :: int] None (None :: unit option))
     = Inl OverflowError"
    by (simp add: MapDataset_shard_def float_overflows_def)
  show "filter (\<lambda>p. int p mod 2 ^ 1024 = 1) [0..<length [10, 20 :: int]] = [1]"
    by (simp add: upt_rec)
  let ?self = "MapDataset_init [10, 20 :: int] None (None :: unit option)"
  have len: "MapDataset_len ?self = 2"
    by (simp add: MapDataset_len_def MapDataset_init_def)
  have quotient: "(2::int) div 2 ^ 1024 = 0" "(2::int) mod 2 ^ 1024 = 2"
    by simp_all
  have starts: "shard_start 2 (2 ^ 1024) 1 = 1" "shard_start 2 (2 ^ 1024) (1 + 1) = 2"
    unfolding shard_start_def quotient by simp_all
  have "(0::int) < 2 ^ 1024" "(0::int) \<le> 1" "(1::int) < 2 ^ 1024"
    by simp_all
  from shard_contiguous_eq [OF this, of "\<lparr>get_world_size = 1, get_rank = 0\<rparr>" ?self]
  have "MapDataset_shard \<lparr>get_world_size = 1, get_rank = 0\<rparr> (Some (2 ^ 1024)) (Some 1) True
        ?self
      = Inr (?self\<lparr>new_data := map (\<lambda>p. new_data ?self ! p) [nat 1..<nat 2]\<rparr>)"
    unfolding len starts .
  moreover have "map (\<lambda>p. new_data ?self ! p) [nat 1..<nat 2] = [20]"
    by (simp add: MapDataset_init_def upt_rec)
  ultimately show "MapDataset_shard \<lparr>get_world_size = 1, get_rank = 0\<rparr>
      (Some (2 ^ 1024)) (Some 1) True ?self
     = Inr (?self\<lparr>new_data := [20]\<rparr>)"
    by (simp only:)
qed

lemma MapDataset_filter_eq:
  assumes "0 \<le> k"
  shows "MapDataset_filter dist fn k self = Inr (self\<lparr>new_data := filter fn (new_data self)\<rparr>)"
proof (cases "0 < k")
  case False
  with assms have "k = 0" by simp
  then show ?thesis by (simp add: MapDataset_filter_def MapDataset__filter_eq)
next
  case True
  let ?range = "\<lambda>i. [nat (shard_start (MapDataset_len self) k (int i))
                       ..<nat (shard_start (MapDataset_len self) k (int (Suc i)))]"
  let ?piece = "\<lambda>i. self\<lparr>new_data :=
      filter fn (map (\<lambda>p. new_data self ! p) (?range i))\<rparr>"
  have workers: "map_err (\<lambda>rank. filter_shard dist self k (int rank) fn) [0..<nat k]
      = Inr (map ?piece [0..<nat k])"
  proof (rule map_err_all_Inr)
    fix i assume "i \<in> set [0..<nat k]"
    then have "int i < k" by simp
    then show "filter_shard dist self k (int i) fn = Inr (?piece i)"
      using shard_contiguous_eq [OF True, of "int i" dist self]
      by (simp add: filter_shard_def bind_err_def MapDataset__filter_eq add.commute)
  qed
  have "concat (map new_data (map ?piece [0..<nat k]))
      = concat (map (filter fn) (map (\<lambda>i. map (\<lambda>p. new_data self ! p) (?range i)) [0..<nat k]))"
    by (simp add: comp_def)
  also have "\<dots> = filter fn
      (concat (map (\<lambda>i. map (\<lambda>p. new_data self ! p) (?range i)) [0..<nat k]))"
    by (simp only: filter_concat)
  also have "\<dots> = filter fn (new_data self)"
    by (simp only: contiguous_shards_concat [OF True])
  finally have "join_shards [] (map ?piece [0..<nat k]) = filter fn (new_data self)"
    by (simp add: join_shards_concat)
  with True workers show ?thesis
    by (simp add: MapDataset_filter_def bind_err_def)
qed

text \<open>
  Claim C4. With \<open>k > 0\<close> workers (each filters its contiguous shard of a copy of the
  dataset, the results are concatenated in rank order) \<^verbatim>\<open>filter\<close> returns what it
  returns with \<open>0\<close> workers: the dataset whose records are the accepted ones, in their
  original order.
\<close>

theorem filter_workers_same_result:
  "0 < k \<Longrightarrow>
     MapDataset_filter dist fn k self = MapDataset_filter dist fn 0 self
     \<and> MapDataset_filter dist fn 0 self
         = Inr (self\<lparr>new_data := filter fn (new_data self)\<rparr>)"
proof -
  assume workers: "0 < k"
  then have "0 \<le> k" by simp
  then have parallel: "MapDataset_filter dist fn k self
      = Inr (self\<lparr>new_data := filter fn (new_data self)\<rparr>)"
    by (rule MapDataset_filter_eq)
  have sequential: "MapDataset_filter dist fn 0 self
      = Inr (self\<lparr>new_data := filter fn (new_data self)\<rparr>)"
    by (rule MapDataset_filter_eq) simp
  from parallel sequential show ?thesis by simp
qed

text \<open>The theorem at five records, three workers and a predicate that drops two records.\<close>

theorem filter_workers_same_result_witness:
  "MapDataset_filter \<lparr>get_world_size = 1, get_rank = 0\<rparr> (\<lambda>x. x mod 20 \<noteq> 0) 3
     (MapDataset_init [10, 20, 30, 40, 50 :: int] None (None :: unit option))
   = Inr ((MapDataset_init [10, 20, 30, 40, 50] None None)\<lparr>new_data := [10, 30, 50]\<rparr>)
   \<and> MapDataset_filter \<lparr>get_world_size = 1, get_rank = 0\<rparr> (\<lambda>x. x mod 20 \<noteq> 0) 0
     (MapDataset_init [10, 20, 30, 40, 50 :: int] None (None :: unit option))
   = Inr ((MapDataset_init [10, 20, 30, 40, 50] None None)\<lparr>new_data := [10, 30, 50]\<rparr>)"
proof -
  have pos: "0 < (3::int)" by simp
  show ?thesis
    using filter_workers_same_result [OF pos,
      of "\<lparr>get_world_size = 1, get_rank = 0\<rparr>" "\<lambda>x. x mod 20 \<noteq> 0"
         "MapDataset_init [10, 20, 30, 40, 50 :: int] None (None :: unit option)"]
    by (simp add: MapDataset_init_def)
qed

lemma MapDataset_shard_frame:
  assumes "MapDataset_shard dist num_shards index contiguous self = Inr self'"
  shows "self' = self\<lparr>new_data := new_data self'\<rparr>"
  using assms
  by (auto simp: MapDataset_shard_def Let_def split: if_splits)

text \<open>
  Claim C10. Whenever \<^verbatim>\<open>filter\<close> returns (it does for every \<open>num_workers \<ge> 0\<close>), the new
  record collection is the stored raw records that the predicate accepts, the
  transforms play no part, and the transform pipeline, \<^verbatim>\<open>label_list\<close> and \<^verbatim>\<open>vocab_info\<close>
  are as before; whenever \<^verbatim>\<open>shard\<close> returns, the same fields are as before. In both
  cases the resulting dataset is the old one with \<^verbatim>\<open>new_data\<close> replaced.
\<close>

theorem filter_and_shard_frame:
  "(\<forall>self'. MapDataset_filter dist fn k self = Inr self' \<longrightarrow>
      new_data self' = filter fn (new_data self)
      \<and> transform_pipline self' = transform_pipline self
      \<and> label_list self' = label_list self
      \<and> vocab_info self' = vocab_info self
      \<and> self' = self\<lparr>new_data := new_data self'\<rparr>)
   \<and> (0 \<le> k \<longrightarrow> (\<exists>self'. MapDataset_filter dist fn k self = Inr self'))
   \<and> (\<forall>self'. MapDataset_shard dist num_shards index contiguous self = Inr self' \<longrightarrow>
      transform_pipline self' = transform_pipline self
      \<and> label_list self' = label_list self
      \<and> vocab_info self' = vocab_info self
      \<and> self' = self\<lparr>new_data := new_data self'\<rparr>)"
proof (intro conjI allI impI)
  fix self'
  assume run: "MapDataset_filter dist fn k self = Inr self'"
  then have "0 \<le> k" by (auto simp: MapDataset_filter_def split: if_splits)
  with run have eq: "self' = self\<lparr>new_data := filter fn (new_data self)\<rparr>"
    by (simp add: MapDataset_filter_eq)
  show "new_data self' = filter fn (new_data self)" by (simp add: eq)
  show "transform_pipline self' = transform_pipline self" by (simp add: eq)
  show "label_list self' = label_list self" by (simp add: eq)
  show "vocab_info self' = vocab_info self" by (simp add: eq)
  show "self' = self\<lparr>new_data := new_data self'\<rparr>" by (simp add: eq)
next
  assume "0 \<le> k"
  then show "\<exists>self'. MapDataset_filter dist fn k self = Inr self'"
    by (simp add: MapDataset_filter_eq)
next
  fix self'
  assume "MapDataset_shard dist num_shards index contiguous self = Inr self'"
  then have eq: "self' = self\<lparr>new_data := new_data self'\<rparr>"
    by (rule MapDataset_shard_frame)
  show "transform_pipline self' = transform_pipline self" by (subst eq) simp
  show "label_list self' = label_list self" by (subst eq) simp
  show "vocab_info self' = vocab_info self" by (subst eq) simp
  show "self' = self\<lparr>new_data := new_data self'\<rparr>" by (rule eq)
qed

text \<open>
  The theorem at a dataset with the transform \<open>x + 100\<close> registered and the predicate
  \<open>x < 35\<close>: the three raw records below \<open>35\<close> are kept (no transformed record is
  below \<open>35\<close>), and the pipeline, the labels and the vocabulary survive \<^verbatim>\<open>filter\<close> and
  \<^verbatim>\<open>shard\<close>.
\<close>

theorem filter_and_shard_frame_witness:
  "MapDataset_filter \<lparr>get_world_size = 1, get_rank = 0\<rparr> (\<lambda>x. x < 35) 2
     \<lparr>data = [10, 20, 30, 40, 50], transform_pipline = [\<lambda>x. x + 100],
      new_data = [10, 20, 30, 40, 50 :: int],
      label_list = Some [''a''], vocab_info = Some (7 :: nat)\<rparr>
   = Inr \<lparr>data = [10, 20, 30, 40, 50], transform_pipline = [\<lambda>x. x + 100],
      new_data = [10, 20, 30],
      label_list = Some [''a''], vocab_info = Some 7\<rparr>
   \<and> (\<exists>self'. MapDataset_shard \<lparr>get_world_size = 1, get_rank = 0\<rparr> (Some 2) (Some 0) False
         \<lparr>data = [10, 20, 30, 40, 50], transform_pipline = [\<lambda>x. x + 100],
          new_data = [10, 20, 30, 40, 50 :: int],
          label_list = Some [''a''], vocab_info = Some (7 :: nat)\<rparr> = Inr self'
        \<and> transform_pipline self' = [\<lambda>x. x + 100]
        \<and> label_list self' = Some [''a''] \<and> vocab_info self' = Some 7)"
proof -
  let ?dist = "\<lparr>get_world_size = 1, get_rank = 0\<rparr>"
  let ?self = "\<lparr>data = [10, 20, 30, 40, 50], transform_pipline = [\<lambda>x. x + 100],
      new_data = [10, 20, 30, 40, 50 :: int],
      label_list = Some [''a''], vocab_info = Some (7 :: nat)\<rparr>"
  note frame = filter_and_shard_frame [of ?dist "\<lambda>x. x < 35" 2 ?self "Some 2" "Some 0" False]
  from frame obtain filtered
    where run: "MapDataset_filter ?dist (\<lambda>x. x < 35) 2 ?self = Inr filtered"
    by auto
  with frame have "new_data filtered = filter (\<lambda>x. x < 35) (new_data ?self)"
    and "filtered = ?self\<lparr>new_data := new_data filtered\<rparr>"
    by blast+
  then have "filtered = ?self\<lparr>new_data := [10, 20, 30]\<rparr>" by simp
  with run have first: "MapDataset_filter ?dist (\<lambda>x. x < 35) 2 ?self
      = Inr (?self\<lparr>new_data := [10, 20, 30]\<rparr>)"
    by simp
  obtain sharded
    where shard: "MapDataset_shard ?dist (Some 2) (Some 0) False ?self = Inr sharded"
    by (simp add: MapDataset_shard_def float_overflows_def)
  with frame have "transform_pipline sharded = transform_pipline ?self"
    and "label_list sharded = label_list ?self"
    and "vocab_info sharded = vocab_info ?self"
    by blast+
  with shard first show ?thesis by simp
qed

section \<open>Iterating a sharded or filtered IterDataset\<close>

lemma iter_transform_either:
  "(if iter_transform_pipline self \<noteq> [] then IterDataset_transform self x else x)
     = IterDataset_transform self x"
  by (simp add: IterDataset_transform_def)

lemma upt_Suc_shift: "[0..<Suc n] = 0 # map Suc [0..<n]"
  by (simp add: upt_conv_Cons map_Suc_upt del: upt_Suc)

lemma iter_loop_closed_gate:
  assumes "\<not> (filter_pipline self = []
             \<or> IterDataset__filter self (Pipline (length (filter_pipline self))))"
  shows "iter_loop self xs source_end k = ([], source_end)"
  using assms by (induction xs arbitrary: k) simp_all

lemma iter_loop_sharder:
  assumes "shard_filter self = sharder n i" and "n \<noteq> 0"
    and "filter_pipline self = []
           \<or> IterDataset__filter self (Pipline (length (filter_pipline self)))"
  shows "iter_loop self xs source_end k
           = (map (\<lambda>p. IterDataset_transform self (xs ! p))
                (filter (\<lambda>p. (k + int p) mod n = i) [0..<length xs]), source_end)"
proof (induction xs arbitrary: k)
  case Nil
  then show ?case by simp
next
  case (Cons x xs)
  have shift: "filter (\<lambda>p. (k + int p) mod n = i) (map Suc [0..<length xs])
      = map Suc (filter (\<lambda>p. (k + 1 + int p) mod n = i) [0..<length xs])"
    by (simp add: filter_map comp_def algebra_simps)
  have rest: "iter_loop self xs source_end (k + 1)
      = (map (\<lambda>p. IterDataset_transform self (xs ! p))
           (filter (\<lambda>p. (k + 1 + int p) mod n = i) [0..<length xs]), source_end)"
    by (rule Cons.IH)
  have gate: "(filter_pipline self = []
           \<or> IterDataset__filter self (Pipline (length (filter_pipline self)))) = True"
    using assms(3) by simp
  show ?case
    unfolding length_Cons upt_Suc_shift
    using assms(1,2)
    by (simp only: iter_loop.simps gate if_True rest iter_transform_either)
       (simp add: sharder_def shift comp_def)
qed

lemma iter_loop_default:
  assumes "shard_filter self = default_shard_filter"
    and "filter_pipline self = []
           \<or> IterDataset__filter self (Pipline (length (filter_pipline self)))"
  shows "iter_loop self xs source_end k = (map (IterDataset_transform self) xs, source_end)"
  using assms
  by (induction xs arbitrary: k) (simp_all add: default_shard_filter_def iter_transform_either)

lemma IterDataset_shard_fields:
  "shard_filter (IterDataset_shard dist (Some n) (Some i) self) = sharder n i
   \<and> filter_pipline (IterDataset_shard dist (Some n) (Some i) self) = filter_pipline self
   \<and> iter_transform_pipline (IterDataset_shard dist (Some n) (Some i) self)
       = iter_transform_pipline self
   \<and> iter_data (IterDataset_shard dist (Some n) (Some i) self) = iter_data self"
  by (simp add: IterDataset_shard_def)

lemma iter_after_shard:
  assumes "n \<noteq> 0"
    and "iter_data self = Function (xs, source_end) \<or> iter_data self = Iterable (xs, source_end)"
  shows "IterDataset_iter (IterDataset_shard dist (Some n) (Some i) self)
     = (if filter_pipline self = []
           \<or> IterDataset__filter self (Pipline (length (filter_pipline self)))
        then map (\<lambda>p. IterDataset_transform self (xs ! p))
               (filter (\<lambda>p. int p mod n = i) [0..<length xs])
        else [], source_end)"
proof -
  let ?sharded = "IterDataset_shard dist (Some n) (Some i) self"
  have run: "IterDataset_iter ?sharded = iter_loop ?sharded xs source_end 0"
    using assms(2) by (auto simp: IterDataset_iter_def IterDataset_shard_fields)
  have same: "IterDataset__filter ?sharded = IterDataset__filter self"
    "IterDataset_transform ?sharded = IterDataset_transform self"
    by (simp_all add: IterDataset__filter_def IterDataset_transform_def
        IterDataset_shard_fields fun_eq_iff)
  show ?thesis
  proof (cases "filter_pipline self = []
           \<or> IterDataset__filter self (Pipline (length (filter_pipline self)))")
    case True
    then have "filter_pipline ?sharded = []
        \<or> IterDataset__filter ?sharded (Pipline (length (filter_pipline ?sharded)))"
      by (simp add: same IterDataset_shard_fields)
    then have "iter_loop ?sharded xs source_end 0
        = (map (\<lambda>p. IterDataset_transform ?sharded (xs ! p))
             (filter (\<lambda>p. (0 + int p) mod n = i) [0..<length xs]), source_end)"
      using assms(1) by (intro iter_loop_sharder) (simp_all add: IterDataset_shard_fields)
    with True run show ?thesis by (simp add: same)
  next
    case False
    then have "\<not> (filter_pipline ?sharded = []
        \<or> IterDataset__filter ?sharded (Pipline (length (filter_pipline ?sharded))))"
      by (simp add: same IterDataset_shard_fields)
    then have "iter_loop ?sharded xs source_end 0 = ([], source_end)"
      by (rule iter_loop_closed_gate)
    with False run show ?thesis by simp
  qed
qed

text \<open>
  Claim C5. After \<^verbatim>\<open>shard(num_shards, index)\<close> with \<open>num_shards \<noteq> 0\<close> the installed
  predicate accepts exactly the positions \<open>p\<close> with \<open>p mod num_shards = index\<close>.
  Iteration then yields the transformed records at exactly those positions of the
  source, counted from zero over every record the source produces, whenever the
  filter gate of \<^verbatim>\<open>__iter__\<close> is open (and nothing when it is closed). Over a source of
  ten records with an empty filter pipeline, \<^verbatim>\<open>shard(2, 0)\<close> yields the records at the
  positions \<open>0, 2, 4, 6, 8\<close>. A later \<^verbatim>\<open>shard\<close> call replaces the predicate of an
  earlier one.
\<close>

theorem iter_shard_positions:
  "num_shards \<noteq> 0 \<Longrightarrow>
     shard_filter (IterDataset_shard dist (Some num_shards) (Some index) self) p
       = Inr (p mod num_shards = index)
     \<and> (iter_data self = Function (xs, source_end) \<or> iter_data self = Iterable (xs, source_end)
        \<longrightarrow> IterDataset_iter (IterDataset_shard dist (Some num_shards) (Some index) self)
              = (if filter_pipline self = []
                    \<or> IterDataset__filter self (Pipline (length (filter_pipline self)))
                 then map (\<lambda>p. IterDataset_transform self (xs ! p))
                        (filter (\<lambda>p. int p mod num_shards = index) [0..<length xs])
                 else [], source_end))
     \<and> (length xs = 10 \<and> filter_pipline self = []
          \<and> (iter_data self = Function (xs, None) \<or> iter_data self = Iterable (xs, None))
        \<longrightarrow> IterDataset_iter (IterDataset_shard dist (Some 2) (Some 0) self)
              = (map (IterDataset_transform self) [xs ! 0, xs ! 2, xs ! 4, xs ! 6, xs ! 8], None))
     \<and> IterDataset_shard dist (Some num_shards) (Some index)
          (IterDataset_shard dist previous_num_shards previous_index self)
         = IterDataset_shard dist (Some num_shards) (Some index) self"
proof (intro conjI impI)
  assume n: "num_shards \<noteq> 0"
  then show "shard_filter (IterDataset_shard dist (Some num_shards) (Some index) self) p
       = Inr (p mod num_shards = index)"
    by (simp add: IterDataset_shard_def sharder_def)
  show "IterDataset_iter (IterDataset_shard dist (Some num_shards) (Some index) self)
          = (if filter_pipline self = []
                \<or> IterDataset__filter self (Pipline (length (filter_pipline self)))
             then map (\<lambda>p. IterDataset_transform self (xs ! p))
                    (filter (\<lambda>p. int p mod num_shards = index) [0..<length xs])
             else [], source_end)"
    if "iter_data self = Function (xs, source_end) \<or> iter_data self = Iterable (xs, source_end)"
    using n that by (rule iter_after_shard)
  show "IterDataset_iter (IterDataset_shard dist (Some 2) (Some 0) self)
          = (map (IterDataset_transform self) [xs ! 0, xs ! 2, xs ! 4, xs ! 6, xs ! 8], None)"
    if ten: "length xs = 10 \<and> filter_pipline self = []
          \<and> (iter_data self = Function (xs, None) \<or> iter_data self = Iterable (xs, None))"
  proof -
    have two: "(2::int) \<noteq> 0" by simp
    have "filter (\<lambda>p. int p mod 2 = 0) [0..<10] = [0, 2, 4, 6, 8]"
      by (simp add: upt_rec)
    with ten iter_after_shard [OF two, of self xs None dist 0] show ?thesis
      by simp
  qed
  show "IterDataset_shard dist (Some num_shards) (Some index)
          (IterDataset_shard dist previous_num_shards previous_index self)
         = IterDataset_shard dist (Some num_shards) (Some index) self"
    by (simp add: IterDataset_shard_def)
qed

text \<open>The theorem at five records, three shards and index \<open>1\<close>: positions \<open>1\<close> and \<open>4\<close>.\<close>

theorem iter_shard_positions_witness:
  "shard_filter (IterDataset_shard \<lparr>get_world_size = 1, get_rank = 0\<rparr> (Some 3) (Some 1)
       (IterDataset_init (Iterable ([10, 20, 30, 40, 50 :: int], None)) None (None :: unit option))) 7
     = Inr True
   \<and> IterDataset_iter (IterDataset_shard \<lparr>get_world_size = 1, get_rank = 0\<rparr> (Some 3) (Some 1)
       (IterDataset_init (Iterable ([10, 20, 30, 40, 50 :: int], None)) None (None :: unit option)))
     = ([20, 50], None)"
proof -
  have three: "(3::int) \<noteq> 0" by simp
  have "filter (\<lambda>p. int p mod 3 = 1) [0..<5] = [1, 4]"
    by (simp add: upt_rec)
  then show ?thesis
    using iter_shard_positions [OF three, of "\<lparr>get_world_size = 1, get_rank = 0\<rparr>" 1
      "IterDataset_init (Iterable ([10, 20, 30, 40, 50 :: int], None)) None (None :: unit option)"
      7 "[10, 20, 30, 40, 50]" None]
    by (simp add: IterDataset_init_def IterDataset_transform_def)
qed

text \<open>
  With the shard filter of the class in place, a pass yields every record of the
  source (transformed) or none: the filter gate does not look at the records.
\<close>

lemma iter_all_or_nothing:
  assumes "shard_filter self = default_shard_filter"
    and "iter_data self = Function (xs, source_end) \<or> iter_data self = Iterable (xs, source_end)"
  shows "IterDataset_iter self
     = (if filter_pipline self = []
           \<or> IterDataset__filter self (Pipline (length (filter_pipline self)))
        then map (IterDataset_transform self) xs else [], source_end)"
proof -
  have run: "IterDataset_iter self = iter_loop self xs source_end 0"
    using assms(2) by (auto simp: IterDataset_iter_def)
  show ?thesis
  proof (cases "filter_pipline self = []
           \<or> IterDataset__filter self (Pipline (length (filter_pipline self)))")
    case True
    with assms(1) have "iter_loop self xs source_end 0
        = (map (IterDataset_transform self) xs, source_end)"
      by (rule iter_loop_default)
    with True run show ?thesis by simp
  next
    case False
    then have "iter_loop self xs source_end 0 = ([], source_end)"
      by (rule iter_loop_closed_gate)
    with False run show ?thesis by simp
  qed
qed

text \<open>
  Claim C1 fails on the code. \<^verbatim>\<open>__iter__\<close> calls \<^verbatim>\<open>self._filter(self._filter_pipline)\<close>, so
  a registered function is asked about the pipeline list, never about the record. With
  a dataset over the single record \<^verbatim>\<open>{"a": 1, "b": 2}\<close> and the function
  \<^verbatim>\<open>lambda ex: len(ex) == 1\<close> registered by \<^verbatim>\<open>filter\<close>, the function rejects the
  record (it has two fields) and the iteration yields it all the same (the pipeline
  has one element).
\<close>

theorem iter_filter_ignores_record:
  "\<not> (case Example [(''a'', 1 :: int), (''b'', 2)] of
         Example r \<Rightarrow> length r = 1 | Pipline n \<Rightarrow> n = 1)
   \<and> IterDataset_iter
       (IterDataset_filter (\<lambda>ob. case ob of Example r \<Rightarrow> length r = 1 | Pipline n \<Rightarrow> n = 1)
          (IterDataset_init (Function ([[(''a'', 1 :: int), (''b'', 2)]], None))
             None (None :: unit option)))
     = ([[(''a'', 1), (''b'', 2)]], None)"
  by (simp add: IterDataset_iter_def IterDataset_filter_def IterDataset_init_def
      IterDataset__filter_def default_shard_filter_def)

section \<open>Reading datasets\<close>

lemma iter_fresh_iterable:
  "IterDataset_iter (IterDataset_init (Iterable (examples, source_end)) labels vocab)
     = (examples, source_end)"
proof -
  let ?self = "IterDataset_init (Iterable (examples, source_end)) labels vocab"
  have "iter_loop ?self examples source_end 0
      = (map (IterDataset_transform ?self) examples, source_end)"
    by (rule iter_loop_default) (simp_all add: IterDataset_init_def)
  moreover have "map (IterDataset_transform ?self) examples = examples"
    by (simp add: IterDataset_transform_def IterDataset_init_def fun_eq_iff map_idI)
  ultimately show ?thesis
    by (simp add: IterDataset_iter_def IterDataset_init_def)
qed

lemma read_lazy_eq:
  assumes "lazy self" and "hook_read self filename split = (examples, source_end)"
  shows "DatasetBuilder_read self filename split
           = Inr (IsIterDataset (IterDataset_init
               (Iterable (generate_examples (get_labels self) examples source_end))
               (get_labels self) (get_vocab self)))"
  using assms by (simp add: DatasetBuilder_read_def Let_def)

text \<open>
  Claim C7. When the source yields no record (and raises nothing), \<^verbatim>\<open>read\<close> in eager
  mode fails with \<open>ValueError\<close>, and in lazy mode returns an \<^verbatim>\<open>IterDataset\<close> whose
  iteration yields nothing and ends without an exception.
\<close>

theorem read_empty_source:
  "hook_read self filename split = ([], None) \<Longrightarrow>
     (\<not> lazy self \<longrightarrow> DatasetBuilder_read self filename split = Inl ValueError)
     \<and> (lazy self \<longrightarrow>
          (\<exists>ds. DatasetBuilder_read self filename split = Inr (IsIterDataset ds)
                \<and> IterDataset_iter ds = ([], None)))"
proof (intro conjI impI)
  assume src: "hook_read self filename split = ([], None)"
  show "DatasetBuilder_read self filename split = Inl ValueError" if "\<not> lazy self"
    using that src by (simp add: DatasetBuilder_read_def Let_def)
  show "\<exists>ds. DatasetBuilder_read self filename split = Inr (IsIterDataset ds)
                \<and> IterDataset_iter ds = ([], None)" if "lazy self"
  proof -
    have "generate_examples (get_labels self) [] None = ([], None)" by simp
    with read_lazy_eq [OF that src] show ?thesis
      by (metis iter_fresh_iterable)
  qed
qed

text \<open>The theorem at an eager and at a lazy builder whose \<^verbatim>\<open>_read\<close> yields nothing.\<close>

theorem read_empty_source_witness:
  "DatasetBuilder_read
     \<lparr>lazy = False, hook_read = (\<lambda>filename split. ([], None)),
      hook_get_data = (\<lambda>mode. Inr mode), get_labels = Some [''a''],
      get_vocab = (None :: unit option)\<rparr> ''empty.tsv'' ''train'' = Inl ValueError
   \<and> (\<exists>ds. DatasetBuilder_read
     \<lparr>lazy = True, hook_read = (\<lambda>filename split. ([], None)),
      hook_get_data = (\<lambda>mode. Inr mode), get_labels = Some [''a''],
      get_vocab = (None :: unit option)\<rparr> ''empty.tsv'' ''train'' = Inr (IsIterDataset ds)
      \<and> IterDataset_iter ds = ([], None))"
  using read_empty_source
    [of "\<lparr>lazy = False, hook_read = (\<lambda>filename split. ([], None)),
      hook_get_data = (\<lambda>mode. Inr mode), get_labels = Some [''a''],
      get_vocab = (None :: unit option)\<rparr>" "''empty.tsv''" "''train''"]
    read_empty_source
    [of "\<lparr>lazy = True, hook_read = (\<lambda>filename split. ([], None)),
      hook_get_data = (\<lambda>mode. Inr mode), get_labels = Some [''a''],
      get_vocab = (None :: unit option)\<rparr>" "''empty.tsv''" "''train''"]
  by simp

lemma map_err_list_all2:
  "(map_err f xs = Inr ys) = list_all2 (\<lambda>x y. f x = Inr y) xs ys"
proof (induction xs arbitrary: ys)
  case Nil
  then show ?case by auto
next
  case (Cons x xs)
  show ?case
  proof (cases ys)
    case Nil
    then show ?thesis by (simp split: sum.splits)
  next
    case (Cons y ys')
    with Cons.IH [of ys'] show ?thesis
      by (auto split: sum.splits)
  qed
qed

lemma map_err_map:
  "map_err f (map g xs) = map_err (\<lambda>x. f (g x)) xs"
  by (induction xs) (simp_all cong: sum.case_cong)

lemma read_data_files_declared:
  assumes "data_files \<noteq> Some DF_other"
  shows "read_data_files self data_files
           = map_err (\<lambda>(f, s). DatasetBuilder_read self f s) (declared_files data_files)"
proof (cases data_files)
  case None
  then show ?thesis by (simp add: read_data_files_def)
next
  case (Some arg)
  with assms show ?thesis
  proof (cases arg)
    case (DF_str f)
    with Some show ?thesis
      by (simp add: read_data_files_def bind_err_def split: sum.splits)
  next
    case (DF_seq fs)
    with Some show ?thesis
      by (cases fs) (simp_all add: read_data_files_def map_err_map cong: sum.case_cong)
  next
    case (DF_dict kvs)
    with Some show ?thesis
      by (cases kvs)
        (simp_all add: read_data_files_def map_err_map case_prod_unfold cong: sum.case_cong)
  qed simp
qed


lemma read_splits_declared:
  assumes "splits \<noteq> Some SP_other"
  shows "read_splits self splits
           = map_err (\<lambda>s. bind_err (hook_get_data self s)
                       (\<lambda>f. DatasetBuilder_read self f s)) (declared_splits splits)"
proof (cases splits)
  case None
  then show ?thesis by (simp add: read_splits_def)
next
  case (Some arg)
  with assms show ?thesis
  proof (cases arg)
    case (SP_str s)
    with Some show ?thesis
      by (simp add: read_splits_def bind_err_def split: sum.splits)
  next
    case (SP_seq ss)
    with Some show ?thesis
      by (cases ss) (simp_all add: read_splits_def)
  qed simp
qed

lemma declared_nonempty:
  assumes "splits_true splits \<or> data_files_true data_files"
    and "data_files \<noteq> Some DF_other" and "splits \<noteq> Some SP_other"
  shows "declared_files data_files \<noteq> [] \<or> declared_splits splits \<noteq> []"
proof -
  have "declared_files data_files \<noteq> []" if "data_files_true data_files"
    using that assms(2) by (cases data_files rule: data_files_true.cases) simp_all
  moreover have "declared_splits splits \<noteq> []" if "splits_true splits"
    using that assms(3) by (cases splits rule: splits_true.cases) simp_all
  ultimately show ?thesis using assms(1) by blast
qed

lemma read_datasets_both_false:
  "\<not> splits_true splits \<Longrightarrow> \<not> data_files_true data_files
     \<Longrightarrow> read_datasets self splits data_files = Inl AssertionError"
  by (simp add: read_datasets_def)

text \<open>
  Claim C8, amended. \<^verbatim>\<open>read_datasets\<close> fails with \<open>AssertionError\<close> when both arguments
  are absent or empty (both \<^verbatim>\<open>None\<close> in particular). Otherwise, for arguments of the
  accepted types and when every \<^verbatim>\<open>_get_data\<close> and \<^verbatim>\<open>read\<close> call succeeds, at least one
  dataset is produced, and the result is that dataset when it is the only one, and
  otherwise the sequence of the datasets read from the declared files, in declaration
  order, followed by the datasets of the declared splits, in the order of \<^verbatim>\<open>splits\<close>.
\<close>

theorem read_datasets_result:
  "(\<not> splits_true splits \<and> \<not> data_files_true data_files \<longrightarrow>
      read_datasets self splits data_files = Inl AssertionError)
   \<and> read_datasets self None None = Inl AssertionError
   \<and> ((splits_true splits \<or> data_files_true data_files)
        \<and> data_files \<noteq> Some DF_other \<and> splits \<noteq> Some SP_other
        \<and> list_all2 (\<lambda>(f, s) d. DatasetBuilder_read self f s = Inr d)
             (declared_files data_files) from_files
        \<and> list_all2 (\<lambda>s d. \<exists>f. hook_get_data self s = Inr f
                              \<and> DatasetBuilder_read self f s = Inr d)
             (declared_splits splits) from_splits
      \<longrightarrow> from_files @ from_splits \<noteq> []
          \<and> read_datasets self splits data_files
              = Inr (if length (from_files @ from_splits) = 1
                     then Single (hd (from_files @ from_splits))
                     else Several (from_files @ from_splits)))"
proof (intro conjI impI)
  show "read_datasets self splits data_files = Inl AssertionError"
    if "\<not> splits_true splits \<and> \<not> data_files_true data_files"
    using that by (simp add: read_datasets_both_false)
  show "read_datasets self None None = Inl AssertionError"
    by (simp add: read_datasets_both_false)
next
  assume hyp: "(splits_true splits \<or> data_files_true data_files)
        \<and> data_files \<noteq> Some DF_other \<and> splits \<noteq> Some SP_other
        \<and> list_all2 (\<lambda>(f, s) d. DatasetBuilder_read self f s = Inr d)
             (declared_files data_files) from_files
        \<and> list_all2 (\<lambda>s d. \<exists>f. hook_get_data self s = Inr f
                              \<and> DatasetBuilder_read self f s = Inr d)
             (declared_splits splits) from_splits"
  then have truthy: "splits_true splits \<or> data_files_true data_files"
    and typed: "data_files \<noteq> Some DF_other" "splits \<noteq> Some SP_other"
    and files: "list_all2 (\<lambda>(f, s) d. DatasetBuilder_read self f s = Inr d)
             (declared_files data_files) from_files"
    and splits: "list_all2 (\<lambda>s d. \<exists>f. hook_get_data self s = Inr f
                              \<and> DatasetBuilder_read self f s = Inr d)
             (declared_splits splits) from_splits"
    by simp_all
  have "list_all2 (\<lambda>x d. (case x of (f, s) \<Rightarrow> DatasetBuilder_read self f s) = Inr d)
      (declared_files data_files) from_files"
    using files by (rule list_all2_mono) auto
  then have r1: "read_data_files self data_files = Inr from_files"
    by (simp add: read_data_files_declared [OF typed(1)] map_err_list_all2)
  have "list_all2 (\<lambda>s d. bind_err (hook_get_data self s)
                       (\<lambda>f. DatasetBuilder_read self f s) = Inr d)
      (declared_splits splits) from_splits"
    using splits by (rule list_all2_mono) (auto simp: bind_err_def)
  then have r2: "read_splits self splits = Inr from_splits"
    by (simp add: read_splits_declared [OF typed(2)] map_err_list_all2)
  have "length from_files = length (declared_files data_files)"
    and "length from_splits = length (declared_splits splits)"
    using files splits by (simp_all add: list_all2_lengthD)
  with declared_nonempty [OF truthy typed]
  show nonempty: "from_files @ from_splits \<noteq> []"
    by auto
  then have "length (from_files @ from_splits) = 1 \<or> 1 < length (from_files @ from_splits)"
    by (cases "from_files @ from_splits") auto
  then show "read_datasets self splits data_files
              = Inr (if length (from_files @ from_splits) = 1
                     then Single (hd (from_files @ from_splits))
                     else Several (from_files @ from_splits))"
  proof
    assume one: "length (from_files @ from_splits) = 1"
    then obtain d where d: "from_files @ from_splits = [d]"
      by (cases "from_files @ from_splits") auto
    from one have "\<not> 1 < length (from_files @ from_splits)" by simp
    with truthy r1 r2 d show ?thesis
      by (simp add: read_datasets_def bind_err_def py_getitem_def Let_def
          del: append_eq_Cons_conv append_is_Nil_conv length_append)
  next
    assume "1 < length (from_files @ from_splits)"
    with truthy r1 r2 show ?thesis
      by (simp add: read_datasets_def bind_err_def Let_def del: length_append)
  qed
qed

text \<open>
  The theorem at a builder whose records name the file they come from: the mapping
  \<^verbatim>\<open>{"train": "t.jsonl", "dev": "d.jsonl"}\<close> gives the pair of the train and the dev
  dataset, one split gives a single dataset, and a path together with two splits gives
  the dataset of the path followed by those of the splits.
\<close>

theorem read_datasets_result_witness:
  "read_datasets
     \<lparr>lazy = False,
      hook_read = (\<lambda>filename split. ([[''file'' \<mapsto> PStr filename]], None)),
      hook_get_data = (\<lambda>mode. Inr (mode @ ''.jsonl'')), get_labels = None,
      get_vocab = (None :: unit option)\<rparr>
     None (Some (DF_dict [(''train'', ''t.jsonl''), (''dev'', ''d.jsonl'')]))
   = Inr (Several
       [IsMapDataset (MapDataset_init [[''file'' \<mapsto> PStr ''t.jsonl'']] None None),
        IsMapDataset (MapDataset_init [[''file'' \<mapsto> PStr ''d.jsonl'']] None None)])
   \<and> read_datasets
     \<lparr>lazy = False,
      hook_read = (\<lambda>filename split. ([[''file'' \<mapsto> PStr filename]], None)),
      hook_get_data = (\<lambda>mode. Inr (mode @ ''.jsonl'')), get_labels = None,
      get_vocab = (None :: unit option)\<rparr>
     (Some (SP_seq [''test''])) None
   = Inr (Single
       (IsMapDataset (MapDataset_init [[''file'' \<mapsto> PStr ''test.jsonl'']] None None)))
   \<and> read_datasets
     \<lparr>lazy = False,
      hook_read = (\<lambda>filename split. ([[''file'' \<mapsto> PStr filename]], None)),
      hook_get_data = (\<lambda>mode. Inr (mode @ ''.jsonl'')), get_labels = None,
      get_vocab = (None :: unit option)\<rparr>
     (Some (SP_seq [''dev'', ''test''])) (Some (DF_str ''x.tsv''))
   = Inr (Several
       [IsMapDataset (MapDataset_init [[''file'' \<mapsto> PStr ''x.tsv'']] None None),
        IsMapDataset (MapDataset_init [[''file'' \<mapsto> PStr ''dev.jsonl'']] None None),
        IsMapDataset (MapDataset_init [[''file'' \<mapsto> PStr ''test.jsonl'']] None None)])"
proof -
  let ?self = "\<lparr>lazy = False,
      hook_read = (\<lambda>filename split. ([[''file'' \<mapsto> PStr filename]], None)),
      hook_get_data = (\<lambda>mode. Inr (mode @ ''.jsonl'')), get_labels = None,
      get_vocab = (None :: unit option)\<rparr>"
  let ?ds = "\<lambda>filename. IsMapDataset
      (MapDataset_init [[''file'' \<mapsto> PStr filename]] None (None :: unit option))"
  have read: "DatasetBuilder_read ?self filename split = Inr (?ds filename)"
    for filename split
    by (simp add: DatasetBuilder_read_def)
  show ?thesis
    using
      read_datasets_result [of None "Some (DF_dict [(''train'', ''t.jsonl''), (''dev'', ''d.jsonl'')])"
        ?self "[?ds ''t.jsonl'', ?ds ''d.jsonl'']" "[]"]
      read_datasets_result [of "Some (SP_seq [''test''])" None ?self "[]" "[?ds ''test.jsonl'']"]
      read_datasets_result [of "Some (SP_seq [''dev'', ''test''])" "Some (DF_str ''x.tsv'')"
        ?self "[?ds ''x.tsv'']" "[?ds ''dev.jsonl'', ?ds ''test.jsonl'']"]
    by (simp add: read)
qed

text \<open>
  Claim C8 as stated fails at \<^verbatim>\<open>read_datasets(splits=[])\<close>: an argument is present, and
  the call fails with the same \<open>AssertionError\<close> as when both are absent.
\<close>

theorem read_datasets_empty_splits:
  "read_datasets
     \<lparr>lazy = False,
      hook_read = (\<lambda>filename split. ([[''file'' \<mapsto> PStr filename]], None)),
      hook_get_data = (\<lambda>mode. Inr (mode @ ''.jsonl'')), get_labels = None,
      get_vocab = (None :: unit option)\<rparr>
     (Some (SP_seq [])) None
   = Inl AssertionError"
  by (simp add: read_datasets_def)

section \<open>Label conversion\<close>

lemma label_dict_loop_None:
  "(label_dict_loop d i ll s = None) = (d s = None \<and> s \<notin> set ll)"
  by (induction ll arbitrary: d i) auto

lemma label_dict_loop_Some:
  "label_dict_loop d i ll s = Some k \<Longrightarrow>
     (s \<notin> set ll \<and> d s = Some k) \<or> (i \<le> k \<and> k < i + length ll \<and> ll ! (k - i) = s)"
proof (induction ll arbitrary: d i)
  case Nil
  then show ?case by simp
next
  case (Cons l ll)
  from Cons.prems have "label_dict_loop (d(l \<mapsto> i)) (Suc i) ll s = Some k" by simp
  from Cons.IH [OF this] show ?case
  proof
    assume a: "s \<notin> set ll \<and> (d(l \<mapsto> i)) s = Some k"
    show ?thesis
    proof (cases "s = l")
      case True
      with a show ?thesis by simp
    next
      case False
      with a show ?thesis by simp
    qed
  next
    assume a: "Suc i \<le> k \<and> k < Suc i + length ll \<and> ll ! (k - Suc i) = s"
    then have "k - i = Suc (k - Suc i)" by arith
    with a show ?thesis by simp
  qed
qed

lemma make_label_dict_Some:
  "make_label_dict ll s = Some k \<Longrightarrow> k < length ll \<and> ll ! k = s"
  using label_dict_loop_Some [of Map.empty 0 ll s k] by (simp add: make_label_dict_def)

lemma make_label_dict_None:
  "(make_label_dict ll s = None) = (s \<notin> set ll)"
  by (simp add: make_label_dict_def label_dict_loop_None)

lemma label_lookup_present:
  assumes "s \<in> set ll"
  shows "\<exists>w. label_lookup (make_label_dict ll) (PStr s) = Inr w \<and> is_index ll (PStr s) w"
proof -
  from assms obtain k where k: "make_label_dict ll s = Some k"
    using make_label_dict_None [of ll s] by auto
  from make_label_dict_Some [OF k] k show ?thesis
    by (simp add: label_lookup_def)
qed

lemma label_lookup_absent:
  "s \<notin> set ll \<Longrightarrow> label_lookup (make_label_dict ll) (PStr s) = Inl KeyError"
  using make_label_dict_None [of ll s] by (simp add: label_lookup_def)

lemma lookup_all_present:
  assumes "strings_of vs = Some ss" and "set ss \<subseteq> set ll"
  shows "\<exists>ws. map_err (label_lookup (make_label_dict ll)) vs = Inr ws
              \<and> list_all2 (is_index ll) vs ws"
  using assms
proof (induction vs arbitrary: ss rule: strings_of.induct)
  case 1
  then show ?case by simp
next
  case (2 s vs)
  then obtain ss' where ss': "strings_of vs = Some ss'" "ss = s # ss'" by auto
  with "2.prems" have "s \<in> set ll" and "set ss' \<subseteq> set ll" by simp_all
  from label_lookup_present [OF this(1)] obtain w
    where w: "label_lookup (make_label_dict ll) (PStr s) = Inr w" "is_index ll (PStr s) w"
    by blast
  from "2.IH" [OF ss'(1) \<open>set ss' \<subseteq> set ll\<close>] obtain ws
    where ws: "map_err (label_lookup (make_label_dict ll)) vs = Inr ws"
      "list_all2 (is_index ll) vs ws"
    by blast
  from w ws show ?case by simp
qed simp_all

lemma lookup_some_absent:
  assumes "strings_of vs = Some ss" and "\<not> set ss \<subseteq> set ll"
  shows "map_err (label_lookup (make_label_dict ll)) vs = Inl KeyError"
  using assms
proof (induction vs arbitrary: ss rule: strings_of.induct)
  case 1
  then show ?case by simp
next
  case (2 s vs)
  then obtain ss' where ss': "strings_of vs = Some ss'" "ss = s # ss'" by auto
  show ?case
  proof (cases "s \<in> set ll")
    case True
    with "2.prems" ss' have "\<not> set ss' \<subseteq> set ll" by simp
    from "2.IH" [OF ss'(1) this] label_lookup_present [OF True] show ?thesis
      by auto
  next
    case False
    then show ?thesis by (simp add: label_lookup_absent)
  qed
qed simp_all

lemma truthy_label_value:
  assumes "truthy (label_value example)"
  obtains c where "detect_label_col example = Some c"
    and "example c = Some (label_value example)"
proof -
  from assms obtain c where c: "detect_label_col example = Some c"
    by (cases "detect_label_col example") (simp_all add: label_value_def example_get_def)
  with assms have "example c = Some (label_value example)"
    by (cases "example c") (simp_all add: label_value_def example_get_def)
  with c that show ?thesis by blast
qed

lemma convert_label_present:
  assumes "example c = Some v" and "label_strings v = Some ss" and "set ss \<subseteq> set ll"
  shows "\<exists>w. convert_label (make_label_dict ll) c example = Inr (example(c \<mapsto> w))
             \<and> indexed ll v w"
proof (cases v)
  case (PStr s)
  with assms have "s \<in> set ll" by auto
  from label_lookup_present [OF this] obtain w
    where "label_lookup (make_label_dict ll) (PStr s) = Inr w" "is_index ll (PStr s) w"
    by blast
  with PStr assms(1) show ?thesis
    by (auto simp: convert_label_def bind_err_def)
next
  case (PList vs)
  with assms have "strings_of vs = Some ss" by simp
  from lookup_all_present [OF this assms(3)] obtain ws
    where "map_err (label_lookup (make_label_dict ll)) vs = Inr ws"
      "list_all2 (is_index ll) vs ws"
    by blast
  with PList assms(1) show ?thesis
    by (auto simp: convert_label_def bind_err_def)
qed (use assms in simp_all)

lemma convert_label_absent:
  assumes "example c = Some v" and "label_strings v = Some ss" and "\<not> set ss \<subseteq> set ll"
  shows "convert_label (make_label_dict ll) c example = Inl KeyError"
proof (cases v)
  case (PStr s)
  with assms have "s \<notin> set ll" by auto
  with PStr assms(1) show ?thesis
    by (simp add: convert_label_def bind_err_def label_lookup_absent)
next
  case (PList vs)
  with assms have "strings_of vs = Some ss" by simp
  from lookup_some_absent [OF this assms(3)] PList assms(1) show ?thesis
    by (simp add: convert_label_def bind_err_def)
qed (use assms in simp_all)

lemma convert_mappable:
  assumes "truthy (label_value example)" and "mappable ll example"
    and "detect_label_col example = Some c"
  shows "\<exists>example'. convert_label (make_label_dict ll) c example = Inr example'
                    \<and> relabelled ll example example'"
proof -
  from assms(1) obtain c' where "detect_label_col example = Some c'"
    and "example c' = Some (label_value example)"
    by (rule truthy_label_value)
  with assms(3) have val: "example c = Some (label_value example)" by simp
  from assms(1,2) obtain ss where ss: "label_strings (label_value example) = Some ss"
    "set ss \<subseteq> set ll"
    by (auto simp: mappable_def split: option.splits)
  from convert_label_present [of example c, OF val ss] obtain w
    where w: "convert_label (make_label_dict ll) c example = Inr (example(c \<mapsto> w))"
      "indexed ll (label_value example) w"
    by blast
  then have "relabelled ll example (example(c \<mapsto> w))"
    using assms(1,3) by (simp add: relabelled_def)
  with w show ?thesis by blast
qed

lemma convert_has_absent:
  assumes "has_absent_label ll example" and "detect_label_col example = Some c"
  shows "convert_label (make_label_dict ll) c example = Inl KeyError"
proof -
  from assms(1) have t: "truthy (label_value example)" by (simp add: has_absent_label_def)
  then obtain c' where "detect_label_col example = Some c'"
    and "example c' = Some (label_value example)"
    by (rule truthy_label_value)
  with assms(2) have val: "example c = Some (label_value example)" by simp
  from assms(1) obtain ss where "label_strings (label_value example) = Some ss"
    "\<not> set ss \<subseteq> set ll"
    by (auto simp: has_absent_label_def split: option.splits)
  with val show ?thesis by (rule convert_label_absent [of example c])
qed

lemma generate_step_mappable:
  assumes "mappable ll example"
  shows "\<exists>example'. relabelled ll example example'
           \<and> generate_examples (Some ll) (example # rest) source_end
               = (example' # fst (generate_examples (Some ll) rest source_end),
                  snd (generate_examples (Some ll) rest source_end))"
proof (cases "truthy (label_value example)")
  case True
  then obtain c where c: "detect_label_col example = Some c"
    by (rule truthy_label_value)
  from convert_mappable [OF True assms c] obtain example'
    where "convert_label (make_label_dict ll) c example = Inr example'"
      "relabelled ll example example'"
    by blast
  with True c show ?thesis
    by (auto simp: label_value_def split: prod.splits)
next
  case False
  then have "relabelled ll example example" by (simp add: relabelled_def)
  with False show ?thesis
    by (auto simp: label_value_def split: prod.splits)
qed

lemma generate_step_absent:
  assumes "has_absent_label ll example"
  shows "generate_examples (Some ll) (example # rest) source_end = ([], Some KeyError)"
proof -
  from assms have t: "truthy (label_value example)" by (simp add: has_absent_label_def)
  then obtain c where c: "detect_label_col example = Some c"
    by (rule truthy_label_value)
  from convert_has_absent [OF assms c] t c show ?thesis
    by (simp add: label_value_def)
qed

lemma generate_all_mappable:
  assumes "\<forall>example \<in> set examples. mappable ll example"
  shows "\<exists>ys. generate_examples (Some ll) (examples @ rest) source_end
                 = (ys @ fst (generate_examples (Some ll) rest source_end),
                    snd (generate_examples (Some ll) rest source_end))
              \<and> list_all2 (relabelled ll) examples ys"
  using assms
proof (induction examples)
  case Nil
  then show ?case by simp
next
  case (Cons example examples)
  then obtain ys
    where ys: "generate_examples (Some ll) (examples @ rest) source_end
                 = (ys @ fst (generate_examples (Some ll) rest source_end),
                    snd (generate_examples (Some ll) rest source_end))"
      "list_all2 (relabelled ll) examples ys"
    by auto
  from Cons.prems have "mappable ll example" by simp
  from generate_step_mappable [OF this, of "examples @ rest" source_end] obtain example'
    where "relabelled ll example example'"
      "generate_examples (Some ll) (example # examples @ rest) source_end
         = (example' # fst (generate_examples (Some ll) (examples @ rest) source_end),
            snd (generate_examples (Some ll) (examples @ rest) source_end))"
    by blast
  with ys have "generate_examples (Some ll) ((example # examples) @ rest) source_end
                 = ((example' # ys) @ fst (generate_examples (Some ll) rest source_end),
                    snd (generate_examples (Some ll) rest source_end))
      \<and> list_all2 (relabelled ll) (example # examples) (example' # ys)"
    by simp
  then show ?case by blast
qed

lemma map_err_related:
  assumes "\<forall>x \<in> set xs. \<exists>y. f x = Inr y \<and> R x y"
  shows "\<exists>ys. map_err f xs = Inr ys \<and> list_all2 R xs ys"
  using assms
proof (induction xs)
  case Nil
  then show ?case by simp
next
  case (Cons x xs)
  then obtain y ys where "f x = Inr y" "R x y" "map_err f xs = Inr ys" "list_all2 R xs ys"
    by auto
  then have "map_err f (x # xs) = Inr (y # ys) \<and> list_all2 R (x # xs) (y # ys)"
    by simp
  then show ?case by blast
qed

lemma map_err_one_error:
  assumes "\<forall>x \<in> set xs. f x = Inl e \<or> (\<exists>y. f x = Inr y)"
    and "\<exists>x \<in> set xs. f x = Inl e"
  shows "map_err f xs = Inl e"
  using assms
proof (induction xs)
  case Nil
  then show ?case by simp
next
  case (Cons x xs)
  show ?case
  proof (cases "f x")
    case (Inl e')
    with Cons.prems(1) have "e' = e" by auto
    with Inl show ?thesis by simp
  next
    case (Inr y)
    with Cons.prems have "\<exists>x \<in> set xs. f x = Inl e" by auto
    with Cons.IH Cons.prems(1) have "map_err f xs = Inl e" by simp
    with Inr show ?thesis by simp
  qed
qed

lemma read_eager_labelled:
  assumes "\<not> lazy self" and "get_labels self = Some ll"
    and "hook_read self filename split = (examples, None)"
    and "examples \<noteq> []"
    and "detect_label_col (hd examples) = Some c"
    and "truthy (label_value (hd examples))"
  shows "DatasetBuilder_read self filename split
           = bind_err (map_err (convert_label (make_label_dict ll) c) examples)
               (\<lambda>converted. Inr (IsMapDataset
                  (MapDataset_init converted (Some ll) (get_vocab self))))"
proof -
  from assms(4) have "examples ! 0 = hd examples" by (simp add: hd_conv_nth)
  with assms show ?thesis
    by (simp add: DatasetBuilder_read_def Let_def label_value_def)
qed

lemma read_lazy_iter:
  assumes "lazy self" and "get_labels self = Some ll"
    and "hook_read self filename split = (examples, source_end)"
  shows "\<exists>ds. DatasetBuilder_read self filename split = Inr (IsIterDataset ds)
            \<and> IterDataset_iter ds = generate_examples (Some ll) examples source_end"
proof -
  obtain ys ending where g: "generate_examples (Some ll) examples source_end = (ys, ending)"
    by (cases "generate_examples (Some ll) examples source_end")
  from read_lazy_eq [OF assms(1,3)] assms(2) g show ?thesis
    by (simp add: iter_fresh_iterable)
qed

lemma read_lazy_labels:
  assumes labels: "get_labels self = Some ll"
    and src: "hook_read self filename split = (examples, source_end)"
    and "lazy self"
  shows "\<exists>ds. DatasetBuilder_read self filename split = Inr (IsIterDataset ds)
           \<and> ((\<forall>example \<in> set examples. mappable ll example) \<longrightarrow>
                (\<exists>ys. IterDataset_iter ds = (ys, source_end)
                      \<and> list_all2 (relabelled ll) examples ys))
           \<and> (\<forall>before example after.
                 examples = before @ example # after
                 \<and> (\<forall>earlier \<in> set before. mappable ll earlier)
                 \<and> has_absent_label ll example \<longrightarrow>
                (\<exists>ys. IterDataset_iter ds = (ys, Some KeyError)
                      \<and> list_all2 (relabelled ll) before ys))"
proof -
  from read_lazy_iter [OF assms(3) labels src] obtain ds
    where ds: "DatasetBuilder_read self filename split = Inr (IsIterDataset ds)"
      "IterDataset_iter ds = generate_examples (Some ll) examples source_end"
    by blast
  have ok: "\<exists>ys. IterDataset_iter ds = (ys, source_end)
                 \<and> list_all2 (relabelled ll) examples ys"
    if "\<forall>example \<in> set examples. mappable ll example"
    using generate_all_mappable [OF that, of "[]" source_end] ds(2) by simp
  have bad: "\<exists>ys. IterDataset_iter ds = (ys, Some KeyError)
                  \<and> list_all2 (relabelled ll) before ys"
    if split: "examples = before @ example # after"
      and early: "\<forall>earlier \<in> set before. mappable ll earlier"
      and absent: "has_absent_label ll example"
    for before example after
  proof -
    from generate_all_mappable [OF early, of "example # after" source_end] obtain ys
      where ys: "generate_examples (Some ll) (before @ example # after) source_end
          = (ys @ fst (generate_examples (Some ll) (example # after) source_end),
             snd (generate_examples (Some ll) (example # after) source_end))"
        "list_all2 (relabelled ll) before ys"
      by blast
    have "generate_examples (Some ll) (example # after) source_end = ([], Some KeyError)"
      using absent by (rule generate_step_absent)
    with ys(1) ds(2) split have "IterDataset_iter ds = (ys, Some KeyError)"
      by simp
    with ys(2) show ?thesis by blast
  qed
  show ?thesis
  proof (intro exI [of _ ds] conjI allI impI)
    show "DatasetBuilder_read self filename split = Inr (IsIterDataset ds)"
      by (rule ds(1))
    show "\<exists>ys. IterDataset_iter ds = (ys, source_end)
                 \<and> list_all2 (relabelled ll) examples ys"
      if "\<forall>example \<in> set examples. mappable ll example"
      using that by (rule ok)
    show "\<exists>ys. IterDataset_iter ds = (ys, Some KeyError)
                  \<and> list_all2 (relabelled ll) before ys"
      if "examples = before @ example # after
          \<and> (\<forall>earlier \<in> set before. mappable ll earlier)
          \<and> has_absent_label ll example"
      for before example after
      using that bad [of before example after] by blast
  qed
qed

lemma read_eager_column:
  assumes "examples \<noteq> []"
    and uniform: "\<forall>example \<in> set examples.
                detect_label_col example = detect_label_col (hd examples)
                \<and> truthy (label_value example)"
  shows "\<exists>c. detect_label_col (hd examples) = Some c
           \<and> truthy (label_value (hd examples))
           \<and> (\<forall>example \<in> set examples.
                 detect_label_col example = Some c \<and> truthy (label_value example))"
proof -
  from assms(1) have "hd examples \<in> set examples" by simp
  with uniform have first: "truthy (label_value (hd examples))" by blast
  then obtain c where c: "detect_label_col (hd examples) = Some c"
    by (rule truthy_label_value)
  with uniform have "\<forall>example \<in> set examples.
      detect_label_col example = Some c \<and> truthy (label_value example)"
    by simp
  with c first show ?thesis by blast
qed

lemma read_eager_labels:
  assumes labels: "get_labels self = Some ll"
    and src: "hook_read self filename split = (examples, None)"
    and not_lazy: "\<not> lazy self" and nonempty: "examples \<noteq> []"
    and uniform: "\<forall>example \<in> set examples.
                detect_label_col example = detect_label_col (hd examples)
                \<and> truthy (label_value example)"
    and all: "\<forall>example \<in> set examples. mappable ll example"
  shows "\<exists>ds. DatasetBuilder_read self filename split = Inr (IsMapDataset ds)
              \<and> list_all2 (relabelled ll) examples (new_data ds)"
proof -
  from read_eager_column [OF nonempty uniform] obtain c
    where c: "detect_label_col (hd examples) = Some c"
      and first: "truthy (label_value (hd examples))"
      and every: "\<forall>example \<in> set examples.
           detect_label_col example = Some c \<and> truthy (label_value example)"
    by blast
  from every have each: "detect_label_col example = Some c \<and> truthy (label_value example)"
    if "example \<in> set examples" for example
    using that by blast
  note run = read_eager_labelled [OF not_lazy labels src nonempty c first]
  have "\<forall>example \<in> set examples.
      \<exists>example'. convert_label (make_label_dict ll) c example = Inr example'
                  \<and> relabelled ll example example'"
  proof
    fix example assume member: "example \<in> set examples"
    from each [OF member] all member
    have "truthy (label_value example)" "mappable ll example"
      "detect_label_col example = Some c"
      by simp_all
    then show "\<exists>example'. convert_label (make_label_dict ll) c example = Inr example'
                  \<and> relabelled ll example example'"
      by (rule convert_mappable)
  qed
  from map_err_related [OF this] obtain converted
    where conv: "map_err (convert_label (make_label_dict ll) c) examples = Inr converted"
      "list_all2 (relabelled ll) examples converted"
    by blast
  have "DatasetBuilder_read self filename split
      = Inr (IsMapDataset (MapDataset_init converted (Some ll) (get_vocab self)))"
    unfolding run conv(1) by (simp add: bind_err_def)
  moreover have "new_data (MapDataset_init converted (Some ll) (get_vocab self)) = converted"
    by (simp add: MapDataset_init_def)
  ultimately show ?thesis using conv(2) by metis
qed

lemma read_eager_absent:
  assumes labels: "get_labels self = Some ll"
    and src: "hook_read self filename split = (examples, None)"
    and not_lazy: "\<not> lazy self" and nonempty: "examples \<noteq> []"
    and uniform: "\<forall>example \<in> set examples.
                detect_label_col example = detect_label_col (hd examples)
                \<and> truthy (label_value example)"
    and strings: "\<forall>example \<in> set examples. label_strings (label_value example) \<noteq> None"
    and absent: "\<exists>example \<in> set examples. has_absent_label ll example"
  shows "DatasetBuilder_read self filename split = Inl KeyError"
proof -
  from read_eager_column [OF nonempty uniform] obtain c
    where c: "detect_label_col (hd examples) = Some c"
      and first: "truthy (label_value (hd examples))"
      and every: "\<forall>example \<in> set examples.
           detect_label_col example = Some c \<and> truthy (label_value example)"
    by blast
  from every have each: "detect_label_col example = Some c \<and> truthy (label_value example)"
    if "example \<in> set examples" for example
    using that by blast
  note run = read_eager_labelled [OF not_lazy labels src nonempty c first]
  have outcome: "convert_label (make_label_dict ll) c example = Inl KeyError
      \<or> (\<exists>y. convert_label (make_label_dict ll) c example = Inr y)"
    if member: "example \<in> set examples" for example
  proof (cases "mappable ll example")
    case True
    from each [OF member] have "truthy (label_value example)"
      and "detect_label_col example = Some c" by simp_all
    from convert_mappable [OF this(1) True this(2)] show ?thesis by blast
  next
    case False
    from each [OF member] have t: "truthy (label_value example)"
      and col: "detect_label_col example = Some c" by simp_all
    from strings member obtain ss where "label_strings (label_value example) = Some ss"
      by auto
    with False t have "has_absent_label ll example"
      by (simp add: mappable_def has_absent_label_def)
    from convert_has_absent [OF this col] show ?thesis by simp
  qed
  from absent obtain example where member: "example \<in> set examples"
    and "has_absent_label ll example"
    by blast
  moreover from each [OF member] have "detect_label_col example = Some c" by simp
  ultimately have "convert_label (make_label_dict ll) c example = Inl KeyError"
    by (simp add: convert_has_absent)
  with member have "\<exists>example \<in> set examples.
      convert_label (make_label_dict ll) c example = Inl KeyError"
    by blast
  moreover have "\<forall>example \<in> set examples.
      convert_label (make_label_dict ll) c example = Inl KeyError
      \<or> (\<exists>y. convert_label (make_label_dict ll) c example = Inr y)"
    using outcome by blast
  ultimately have "map_err (convert_label (make_label_dict ll) c) examples = Inl KeyError"
    by (intro map_err_one_error)
  then show ?thesis unfolding run by (simp add: bind_err_def)
qed

text \<open>
  Claim C6, amended. Let \<^verbatim>\<open>read\<close> have a label list. In lazy mode the dataset iterates
  over the records of the source with every record relabelled (the non-empty, non-null
  value of its field \<^verbatim>\<open>labels\<close>, else \<^verbatim>\<open>label\<close>, replaced: a string by an index at which
  the label list holds it, a list of strings by the list of such indices), as long as
  the label strings are in the label list; the iteration raises \<open>KeyError\<close> at the
  first record with a label string that is not in the list, after the relabelled
  records before it. In eager mode the same holds when every record has the label
  column of the first record with a non-empty, non-null value: the stored records are
  the relabelled ones, and \<^verbatim>\<open>read\<close> raises \<open>KeyError\<close> when the label values are strings
  or lists of strings and one of the strings is not in the list.
\<close>

theorem read_label_mapping:
  "get_labels self = Some ll \<and> hook_read self filename split = (examples, source_end) \<Longrightarrow>
     (lazy self \<longrightarrow>
        (\<exists>ds. DatasetBuilder_read self filename split = Inr (IsIterDataset ds)
           \<and> ((\<forall>example \<in> set examples. mappable ll example) \<longrightarrow>
                (\<exists>ys. IterDataset_iter ds = (ys, source_end)
                      \<and> list_all2 (relabelled ll) examples ys))
           \<and> (\<forall>before example after.
                 examples = before @ example # after
                 \<and> (\<forall>earlier \<in> set before. mappable ll earlier)
                 \<and> has_absent_label ll example \<longrightarrow>
                (\<exists>ys. IterDataset_iter ds = (ys, Some KeyError)
                      \<and> list_all2 (relabelled ll) before ys))))
     \<and> (\<not> lazy self \<and> source_end = None \<and> examples \<noteq> []
          \<and> (\<forall>example \<in> set examples.
                detect_label_col example = detect_label_col (hd examples)
                \<and> truthy (label_value example)) \<longrightarrow>
          ((\<forall>example \<in> set examples. mappable ll example) \<longrightarrow>
             (\<exists>ds. DatasetBuilder_read self filename split = Inr (IsMapDataset ds)
                   \<and> list_all2 (relabelled ll) examples (new_data ds)))
          \<and> ((\<forall>example \<in> set examples. label_strings (label_value example) \<noteq> None)
               \<and> (\<exists>example \<in> set examples. has_absent_label ll example) \<longrightarrow>
             DatasetBuilder_read self filename split = Inl KeyError))"
proof -
  assume given: "get_labels self = Some ll
      \<and> hook_read self filename split = (examples, source_end)"
  then have labels: "get_labels self = Some ll"
    and src: "hook_read self filename split = (examples, source_end)"
    by blast+
  have lazy_part: "\<exists>ds. DatasetBuilder_read self filename split = Inr (IsIterDataset ds)
           \<and> ((\<forall>example \<in> set examples. mappable ll example) \<longrightarrow>
                (\<exists>ys. IterDataset_iter ds = (ys, source_end)
                      \<and> list_all2 (relabelled ll) examples ys))
           \<and> (\<forall>before example after.
                 examples = before @ example # after
                 \<and> (\<forall>earlier \<in> set before. mappable ll earlier)
                 \<and> has_absent_label ll example \<longrightarrow>
                (\<exists>ys. IterDataset_iter ds = (ys, Some KeyError)
                      \<and> list_all2 (relabelled ll) before ys))"
    if "lazy self"
    using labels src that by (rule read_lazy_labels)
  have eager_part:
    "((\<forall>example \<in> set examples. mappable ll example) \<longrightarrow>
             (\<exists>ds. DatasetBuilder_read self filename split = Inr (IsMapDataset ds)
                   \<and> list_all2 (relabelled ll) examples (new_data ds)))
          \<and> ((\<forall>example \<in> set examples. label_strings (label_value example) \<noteq> None)
               \<and> (\<exists>example \<in> set examples. has_absent_label ll example) \<longrightarrow>
             DatasetBuilder_read self filename split = Inl KeyError)"
    if eager: "\<not> lazy self \<and> source_end = None \<and> examples \<noteq> []
          \<and> (\<forall>example \<in> set examples.
                detect_label_col example = detect_label_col (hd examples)
                \<and> truthy (label_value example))"
  proof -
    from eager have not_lazy: "\<not> lazy self" and ending: "source_end = None"
      and nonempty: "examples \<noteq> []"
      and uniform: "\<forall>example \<in> set examples.
                detect_label_col example = detect_label_col (hd examples)
                \<and> truthy (label_value example)"
      by blast+
    from src ending have src': "hook_read self filename split = (examples, None)" by simp
    have one: "\<exists>ds. DatasetBuilder_read self filename split = Inr (IsMapDataset ds)
                   \<and> list_all2 (relabelled ll) examples (new_data ds)"
      if "\<forall>example \<in> set examples. mappable ll example"
      using labels src' not_lazy nonempty uniform that by (rule read_eager_labels)
    have two: "DatasetBuilder_read self filename split = Inl KeyError"
      if "(\<forall>example \<in> set examples. label_strings (label_value example) \<noteq> None)
               \<and> (\<exists>example \<in> set examples. has_absent_label ll example)"
    proof -
      from that have "\<forall>example \<in> set examples. label_strings (label_value example) \<noteq> None"
        and "\<exists>example \<in> set examples. has_absent_label ll example"
        by blast+
      with labels src' not_lazy nonempty uniform show ?thesis
        by (rule read_eager_absent)
    qed
    show ?thesis
      by (rule conjI; rule impI) (erule one, erule two)
  qed
  show ?thesis
    by (rule conjI; rule impI) (erule lazy_part, erule eager_part)
qed

text \<open>
  The theorem at the label list \<^verbatim>\<open>["a", "b", "c"]\<close>: a lazy read of a scalar and a list
  label, an eager read of the same labels in one column, and an eager read that meets
  the label \<^verbatim>\<open>"z"\<close>.
\<close>

theorem read_label_mapping_witness:
  "(\<exists>ds ys. DatasetBuilder_read
      \<lparr>lazy = True,
       hook_read = (\<lambda>filename split.
         ([[''label'' \<mapsto> PStr ''b''], [''labels'' \<mapsto> PList [PStr ''a'', PStr ''c'']]], None)),
       hook_get_data = (\<lambda>mode. Inr mode), get_labels = Some [''a'', ''b'', ''c''],
       get_vocab = (None :: unit option)\<rparr> ''f'' ''train'' = Inr (IsIterDataset ds)
     \<and> IterDataset_iter ds = (ys, None)
     \<and> list_all2 (relabelled [''a'', ''b'', ''c''])
          [[''label'' \<mapsto> PStr ''b''], [''labels'' \<mapsto> PList [PStr ''a'', PStr ''c'']]] ys)
   \<and> (\<exists>ds. DatasetBuilder_read
      \<lparr>lazy = False,
       hook_read = (\<lambda>filename split.
         ([[''label'' \<mapsto> PStr ''b''], [''label'' \<mapsto> PList [PStr ''a'', PStr ''c'']]], None)),
       hook_get_data = (\<lambda>mode. Inr mode), get_labels = Some [''a'', ''b'', ''c''],
       get_vocab = (None :: unit option)\<rparr> ''f'' ''train'' = Inr (IsMapDataset ds)
     \<and> list_all2 (relabelled [''a'', ''b'', ''c''])
          [[''label'' \<mapsto> PStr ''b''], [''label'' \<mapsto> PList [PStr ''a'', PStr ''c'']]]
          (new_data ds))
   \<and> DatasetBuilder_read
      \<lparr>lazy = False,
       hook_read = (\<lambda>filename split.
         ([[''label'' \<mapsto> PStr ''b''], [''label'' \<mapsto> PStr ''z'']], None)),
       hook_get_data = (\<lambda>mode. Inr mode), get_labels = Some [''a'', ''b'', ''c''],
       get_vocab = (None :: unit option)\<rparr> ''f'' ''train'' = Inl KeyError"
proof -
  let ?ll = "[''a'', ''b'', ''c'']"
  let ?mixed = "[[''label'' \<mapsto> PStr ''b''], [''labels'' \<mapsto> PList [PStr ''a'', PStr ''c'']]]"
  let ?uniform = "[[''label'' \<mapsto> PStr ''b''], [''label'' \<mapsto> PList [PStr ''a'', PStr ''c'']]]"
  let ?bad = "[[''label'' \<mapsto> PStr ''b''], [''label'' \<mapsto> PStr ''z'']]"
  let ?builder = "\<lambda>lz examples. \<lparr>lazy = lz,
       hook_read = (\<lambda>filename split. (examples, None)),
       hook_get_data = (\<lambda>mode. Inr mode), get_labels = Some ?ll,
       get_vocab = (None :: unit option)\<rparr>"
  have label_vals: "label_value [''label'' \<mapsto> PStr ''b''] = PStr ''b''"
    "label_value [''labels'' \<mapsto> PList [PStr ''a'', PStr ''c'']] = PList [PStr ''a'', PStr ''c'']"
    "label_value [''label'' \<mapsto> PList [PStr ''a'', PStr ''c'']] = PList [PStr ''a'', PStr ''c'']"
    "label_value [''label'' \<mapsto> PStr ''z''] = PStr ''z''"
    by (simp_all add: label_value_def detect_label_col_def example_get_def)
  have columns: "detect_label_col [''label'' \<mapsto> PStr ''b''] = Some ''label''"
    "detect_label_col [''label'' \<mapsto> PList [PStr ''a'', PStr ''c'']] = Some ''label''"
    "detect_label_col [''label'' \<mapsto> PStr ''z''] = Some ''label''"
    by (simp_all add: detect_label_col_def)
  have lazy_case: "\<exists>ds ys. DatasetBuilder_read (?builder True ?mixed) ''f'' ''train''
        = Inr (IsIterDataset ds)
      \<and> IterDataset_iter ds = (ys, None) \<and> list_all2 (relabelled ?ll) ?mixed ys"
  proof -
    have given: "get_labels (?builder True ?mixed) = Some ?ll
        \<and> hook_read (?builder True ?mixed) ''f'' ''train'' = (?mixed, None)"
      by simp
    have all: "\<forall>example \<in> set ?mixed. mappable ?ll example"
      by (simp add: mappable_def label_vals)
    from read_label_mapping [OF given] have "lazy (?builder True ?mixed) \<longrightarrow>
        (\<exists>ds. DatasetBuilder_read (?builder True ?mixed) ''f'' ''train'' = Inr (IsIterDataset ds)
           \<and> ((\<forall>example \<in> set ?mixed. mappable ?ll example) \<longrightarrow>
                (\<exists>ys. IterDataset_iter ds = (ys, None)
                      \<and> list_all2 (relabelled ?ll) ?mixed ys))
           \<and> (\<forall>before example after.
                 ?mixed = before @ example # after
                 \<and> (\<forall>earlier \<in> set before. mappable ?ll earlier)
                 \<and> has_absent_label ?ll example \<longrightarrow>
                (\<exists>ys. IterDataset_iter ds = (ys, Some KeyError)
                      \<and> list_all2 (relabelled ?ll) before ys)))"
      by (rule conjunct1)
    then obtain ds where "DatasetBuilder_read (?builder True ?mixed) ''f'' ''train''
          = Inr (IsIterDataset ds)"
      and "(\<forall>example \<in> set ?mixed. mappable ?ll example) \<longrightarrow>
                (\<exists>ys. IterDataset_iter ds = (ys, None)
                      \<and> list_all2 (relabelled ?ll) ?mixed ys)"
      by auto
    with all show ?thesis by blast
  qed
  have eager_ok: "\<exists>ds. DatasetBuilder_read (?builder False ?uniform) ''f'' ''train''
        = Inr (IsMapDataset ds)
      \<and> list_all2 (relabelled ?ll) ?uniform (new_data ds)"
  proof -
    have given: "get_labels (?builder False ?uniform) = Some ?ll
        \<and> hook_read (?builder False ?uniform) ''f'' ''train'' = (?uniform, None)"
      by simp
    have eager: "\<not> lazy (?builder False ?uniform) \<and> (None :: error option) = None
        \<and> ?uniform \<noteq> []
        \<and> (\<forall>example \<in> set ?uniform.
              detect_label_col example = detect_label_col (hd ?uniform)
              \<and> truthy (label_value example))"
      by (simp add: label_vals columns)
    have all: "\<forall>example \<in> set ?uniform. mappable ?ll example"
      by (simp add: mappable_def label_vals)
    from read_label_mapping [OF given, THEN conjunct2, rule_format, OF eager]
    show ?thesis using all by blast
  qed
  have eager_bad: "DatasetBuilder_read (?builder False ?bad) ''f'' ''train'' = Inl KeyError"
  proof -
    have given: "get_labels (?builder False ?bad) = Some ?ll
        \<and> hook_read (?builder False ?bad) ''f'' ''train'' = (?bad, None)"
      by simp
    have eager: "\<not> lazy (?builder False ?bad) \<and> (None :: error option) = None
        \<and> ?bad \<noteq> []
        \<and> (\<forall>example \<in> set ?bad.
              detect_label_col example = detect_label_col (hd ?bad)
              \<and> truthy (label_value example))"
      by (simp add: label_vals columns)
    have absent: "(\<forall>example \<in> set ?bad. label_strings (label_value example) \<noteq> None)
        \<and> (\<exists>example \<in> set ?bad. has_absent_label ?ll example)"
      by (simp add: has_absent_label_def label_vals)
    from read_label_mapping [OF given, THEN conjunct2, rule_format, OF eager]
    show ?thesis using absent by blast
  qed
  from lazy_case eager_ok eager_bad show ?thesis by blast
qed

lemma abc_dict:
  "make_label_dict [''a'', ''b'', ''c''] = [''a'' \<mapsto> 0, ''b'' \<mapsto> 1, ''c'' \<mapsto> 2]"
  by (simp add: make_label_dict_def numeral_2_eq_2)

text \<open>
  The examples of the specification, evaluated: with the label list \<^verbatim>\<open>["a", "b", "c"]\<close>
  the record \<^verbatim>\<open>{"label": "b"}\<close> becomes \<^verbatim>\<open>{"label": 1}\<close> and \<^verbatim>\<open>{"labels": ["a", "c"]}\<close>
  becomes \<^verbatim>\<open>{"labels": [0, 2]}\<close>; the label \<^verbatim>\<open>"z"\<close> raises \<open>KeyError\<close>.
\<close>

lemma read_label_examples:
  "(\<exists>ds. DatasetBuilder_read
      \<lparr>lazy = True,
       hook_read = (\<lambda>filename split.
         ([[''label'' \<mapsto> PStr ''b''], [''labels'' \<mapsto> PList [PStr ''a'', PStr ''c'']]], None)),
       hook_get_data = (\<lambda>mode. Inr mode), get_labels = Some [''a'', ''b'', ''c''],
       get_vocab = (None :: unit option)\<rparr> ''f'' ''train'' = Inr (IsIterDataset ds)
     \<and> IterDataset_iter ds
         = ([[''label'' \<mapsto> PInt 1], [''labels'' \<mapsto> PList [PInt 0, PInt 2]]], None))
   \<and> DatasetBuilder_read
      \<lparr>lazy = False,
       hook_read = (\<lambda>filename split. ([[''label'' \<mapsto> PStr ''b'']], None)),
       hook_get_data = (\<lambda>mode. Inr mode), get_labels = Some [''a'', ''b'', ''c''],
       get_vocab = (None :: unit option)\<rparr> ''f'' ''train''
     = Inr (IsMapDataset (MapDataset_init [[''label'' \<mapsto> PInt 1]]
         (Some [''a'', ''b'', ''c'']) None))
   \<and> DatasetBuilder_read
      \<lparr>lazy = False,
       hook_read = (\<lambda>filename split.
         ([[''labels'' \<mapsto> PList [PStr ''a'', PStr ''c'']]], None)),
       hook_get_data = (\<lambda>mode. Inr mode), get_labels = Some [''a'', ''b'', ''c''],
       get_vocab = (None :: unit option)\<rparr> ''f'' ''train''
     = Inr (IsMapDataset (MapDataset_init [[''labels'' \<mapsto> PList [PInt 0, PInt 2]]]
         (Some [''a'', ''b'', ''c'']) None))
   \<and> DatasetBuilder_read
      \<lparr>lazy = False,
       hook_read = (\<lambda>filename split. ([[''label'' \<mapsto> PStr ''z'']], None)),
       hook_get_data = (\<lambda>mode. Inr mode), get_labels = Some [''a'', ''b'', ''c''],
       get_vocab = (None :: unit option)\<rparr> ''f'' ''train''
     = Inl KeyError"
  by (simp add: DatasetBuilder_read_def Let_def iter_fresh_iterable detect_label_col_def
      example_get_def convert_label_def label_lookup_def bind_err_def abc_dict)

text \<open>
  A tuple of labels is not converted: the assignment to its first element raises
  \<open>TypeError\<close>.
\<close>

lemma read_tuple_labels:
  "DatasetBuilder_read
      \<lparr>lazy = False,
       hook_read = (\<lambda>filename split.
         ([[''labels'' \<mapsto> PTuple [PStr ''a'', PStr ''c'']]], None)),
       hook_get_data = (\<lambda>mode. Inr mode), get_labels = Some [''a'', ''b'', ''c''],
       get_vocab = (None :: unit option)\<rparr> ''f'' ''train''
     = Inl TypeError"
  by (simp add: DatasetBuilder_read_def Let_def detect_label_col_def
      example_get_def convert_label_def label_lookup_def bind_err_def abc_dict)

text \<open>
  Claim C6 as stated fails in eager mode: the label column and the decision to
  convert are taken from the first record alone. With the label list
  \<^verbatim>\<open>["a", "b", "c"]\<close> and the records \<^verbatim>\<open>{"text": "x"}\<close> and \<^verbatim>\<open>{"label": "b"}\<close>, the second
  record keeps its label string.
\<close>

theorem read_first_record_decides:
  "DatasetBuilder_read
      \<lparr>lazy = False,
       hook_read = (\<lambda>filename split.
         ([[''text'' \<mapsto> PStr ''x''], [''label'' \<mapsto> PStr ''b'']], None)),
       hook_get_data = (\<lambda>mode. Inr mode), get_labels = Some [''a'', ''b'', ''c''],
       get_vocab = (None :: unit option)\<rparr> ''f'' ''train''
     = Inr (IsMapDataset (MapDataset_init
         [[''text'' \<mapsto> PStr ''x''], [''label'' \<mapsto> PStr ''b'']]
         (Some [''a'', ''b'', ''c'']) None))"
  by (simp add: DatasetBuilder_read_def Let_def detect_label_col_def example_get_def)

end
